theory Spec2Isabelle
  imports Main "HOL-Library.Word"
begin

chapter \<open>fil-warsaw-workshop: an embedding of the workshop application\<close>

text \<open>
  The definitions follow the repository's sources: the Solidity contract
  \<^verbatim>\<open>NFTContract.sol\<close>, the React components \<^verbatim>\<open>FileUpload\<close> and
  \<^verbatim>\<open>EncryptedNFTMinter\<close>, and the hooks \<^verbatim>\<open>useDatasets\<close>,
  \<^verbatim>\<open>useChallengeVerification\<close> and \<^verbatim>\<open>useFileUploadEnhanced\<close>.
  Calls into external SDKs, the browser and the chain are parameters of the model:
  each such call is given by its outcome, a value or an error.
\<close>

section \<open>Thrown values\<close>

text \<open>
  What a JavaScript \<^verbatim>\<open>throw\<close> or a rejected promise carries: an \<^verbatim>\<open>Error\<close> object (a
  \<^verbatim>\<open>WorkshopError\<close> is one) with its message, or anything else. A call that may fail
  has a result of type \<open>thrown + 'a\<close>.
\<close>

datatype thrown = Error string | NonError


section \<open>NFTContract.sol\<close>

text \<open>
  \<^verbatim>\<open>uint256\<close> values are natural numbers below \<open>2 ^ 256\<close>; Solidity 0.8 reverts
  on overflow, which is written out at each increment. A revert discards every state
  change of the call, so a reverting call returns the error alone.
  The contract inherits OpenZeppelin's \<^verbatim>\<open>ERC721\<close>, an external library: of it, only the
  owner table, \<^verbatim>\<open>_mint\<close> and \<^verbatim>\<open>ownerOf\<close> are modelled, by their documented behaviour
  (\<^verbatim>\<open>_mint\<close> reverts for the zero address and for a token that exists already,
  \<^verbatim>\<open>ownerOf\<close> reverts for a token nobody owns).
\<close>

type_synonym address = "160 word"

datatype revert = Panic_Overflow | Panic_IndexOutOfBounds
  | ERC721InvalidReceiver | ERC721InvalidSender | ERC721NonexistentToken

record NFTContract =
  tokenIdCounter :: nat
  tokenURIs :: "nat \<Rightarrow> string"
  owners :: "nat \<Rightarrow> address"

definition uint256_max :: nat where
  "uint256_max = 2 ^ 256 - 1"

text \<open>The state after the constructor: every mapping at its default value.\<close>

definition deployed :: NFTContract where
  "deployed = \<lparr>tokenIdCounter = 0, tokenURIs = (\<lambda>_. []), owners = (\<lambda>_. 0)\<rparr>"

definition erc721_mint :: "address \<Rightarrow> nat \<Rightarrow> NFTContract \<Rightarrow> revert + NFTContract" where
  "erc721_mint to tokenId s =
     (if to = 0 then Inl ERC721InvalidReceiver
      else if owners s tokenId \<noteq> 0 then Inl ERC721InvalidSender
      else Inr (s\<lparr>owners := (owners s)(tokenId := to)\<rparr>))"

definition ownerOf :: "NFTContract \<Rightarrow> nat \<Rightarrow> revert + address" where
  "ownerOf s tokenId =
     (if owners s tokenId = 0 then Inl ERC721NonexistentToken else Inr (owners s tokenId))"

text \<open>
  \<^verbatim>\<open>mint\<close>: increment the counter, mint the new id to \<^verbatim>\<open>msg.sender\<close>, store the
  content identifier under the new id.
\<close>

definition mint :: "address \<Rightarrow> string \<Rightarrow> NFTContract \<Rightarrow> revert + NFTContract" where
  "mint msg_sender storacha_cid s =
     (if tokenIdCounter s = uint256_max then Inl Panic_Overflow
      else
        let s1 = s\<lparr>tokenIdCounter := tokenIdCounter s + 1\<rparr>;
            tokenId = tokenIdCounter s1
        in case erc721_mint msg_sender tokenId s1 of
             Inl e \<Rightarrow> Inl e
           | Inr s2 \<Rightarrow> Inr (s2\<lparr>tokenURIs := (tokenURIs s2)(tokenId := storacha_cid)\<rparr>))"

definition tokenURI :: "NFTContract \<Rightarrow> nat \<Rightarrow> string" where
  "tokenURI s tokenId = tokenURIs s tokenId"

definition getTotalSupply :: "NFTContract \<Rightarrow> nat" where
  "getTotalSupply s = tokenIdCounter s"

text \<open>
  The loop of \<^verbatim>\<open>getAllTokensDetails\<close>: \<^verbatim>\<open>for (i = 0; i < totalSupply; i++)
  tokenURIs[i] = tokenURI(i + 1)\<close>, with the checked addition and the checked array
  write of Solidity.
\<close>

function getAllTokensDetails_loop ::
  "NFTContract \<Rightarrow> nat \<Rightarrow> nat \<Rightarrow> string list \<Rightarrow> revert + string list" where
  "getAllTokensDetails_loop s totalSupply i arr =
     (if i < totalSupply then
        (if i = uint256_max then Inl Panic_Overflow
         else if length arr \<le> i then Inl Panic_IndexOutOfBounds
         else getAllTokensDetails_loop s totalSupply (i + 1) (arr[i := tokenURI s (i + 1)]))
      else Inr arr)"
  by pat_completeness auto
termination
  by (relation "measure (\<lambda>(s, totalSupply, i, arr). totalSupply - i)") auto

definition getAllTokensDetails :: "NFTContract \<Rightarrow> revert + string list" where
  "getAllTokensDetails s =
     (let totalSupply = getTotalSupply s
      in getAllTokensDetails_loop s totalSupply 0 (replicate totalSupply []))"

text \<open>
  A sequence of calls to \<^verbatim>\<open>mint\<close>, each given by its sender and its argument; the
  sequence stops at the first call that reverts.
\<close>

fun run_mints :: "(address \<times> string) list \<Rightarrow> NFTContract \<Rightarrow> revert + NFTContract" where
  "run_mints [] s = Inr s"
| "run_mints ((sender, cid) # calls) s =
     (case mint sender cid s of Inl e \<Rightarrow> Inl e | Inr s' \<Rightarrow> run_mints calls s')"

text \<open>
  The contract state that records exactly the given calls: token \<open>k\<close> belongs to the
  sender of the \<open>k\<close>-th call and carries its content identifier, and no other token
  exists.
\<close>

definition minted :: "(address \<times> string) list \<Rightarrow> NFTContract \<Rightarrow> bool" where
  "minted calls s \<longleftrightarrow>
     tokenIdCounter s = length calls \<and>
     (\<forall>k. owners s k = (if 1 \<le> k \<and> k \<le> length calls then fst (calls ! (k - 1)) else 0)) \<and>
     (\<forall>k. tokenURIs s k = (if 1 \<le> k \<and> k \<le> length calls then snd (calls ! (k - 1)) else []))"


section \<open>workshop.types.ts: challenges\<close>

datatype ChallengeType =
  TREASURY_MASTER | STORAGE_SENTINEL | DATA_GUARDIAN | NFT_ARCHITECT | DECRYPTION_EXPERT

text \<open>The enum is a string enum: every member's value is its own name.\<close>

fun ChallengeType_value :: "ChallengeType \<Rightarrow> string" where
  "ChallengeType_value TREASURY_MASTER = ''TREASURY_MASTER''"
| "ChallengeType_value STORAGE_SENTINEL = ''STORAGE_SENTINEL''"
| "ChallengeType_value DATA_GUARDIAN = ''DATA_GUARDIAN''"
| "ChallengeType_value NFT_ARCHITECT = ''NFT_ARCHITECT''"
| "ChallengeType_value DECRYPTION_EXPERT = ''DECRYPTION_EXPERT''"

text \<open>\<^verbatim>\<open>Object.values(ChallengeType)\<close>, in declaration order.\<close>

definition ChallengeType_values :: "ChallengeType list" where
  "ChallengeType_values =
     [TREASURY_MASTER, STORAGE_SENTINEL, DATA_GUARDIAN, NFT_ARCHITECT, DECRYPTION_EXPERT]"

datatype ChallengeDifficulty = BEGINNER | INTERMEDIATE | ADVANCED | EXPERT

fun ChallengeDifficulty_value :: "ChallengeDifficulty \<Rightarrow> nat" where
  "ChallengeDifficulty_value BEGINNER = 1"
| "ChallengeDifficulty_value INTERMEDIATE = 2"
| "ChallengeDifficulty_value ADVANCED = 3"
| "ChallengeDifficulty_value EXPERT = 4"

text \<open>
  Of a \<^verbatim>\<open>Challenge\<close>, the fields that the hooks read; titles, paths, hints and
  learning objectives are display texts.
\<close>

record Challenge =
  challenge_id :: ChallengeType
  number :: nat
  difficulty :: ChallengeDifficulty
  prerequisites :: "ChallengeType list"

definition WORKSHOP_CHALLENGES :: "Challenge list" where
  "WORKSHOP_CHALLENGES =
     [\<lparr>challenge_id = TREASURY_MASTER, number = 1, difficulty = BEGINNER, prerequisites = []\<rparr>,
      \<lparr>challenge_id = STORAGE_SENTINEL, number = 2, difficulty = INTERMEDIATE,
         prerequisites = [TREASURY_MASTER]\<rparr>,
      \<lparr>challenge_id = DATA_GUARDIAN, number = 3, difficulty = INTERMEDIATE,
         prerequisites = [STORAGE_SENTINEL]\<rparr>,
      \<lparr>challenge_id = NFT_ARCHITECT, number = 4, difficulty = ADVANCED,
         prerequisites = [DATA_GUARDIAN]\<rparr>,
      \<lparr>challenge_id = DECRYPTION_EXPERT, number = 5, difficulty = EXPERT,
         prerequisites = [NFT_ARCHITECT]\<rparr>]"

definition TOTAL_CHALLENGES :: nat where
  "TOTAL_CHALLENGES = 5"

definition PROGRESS_STORAGE_KEY :: string where
  "PROGRESS_STORAGE_KEY = ''fil-workshop-progress''"

definition PROGRESS_VERSION :: nat where
  "PROGRESS_VERSION = 1"

text \<open>
  A progress object lives in memory and, as a JSON text, in local storage, where a second
  writer (\<^verbatim>\<open>ChallengeSuccess\<close>) keeps objects of an older shape under the same key:
  \<^verbatim>\<open>{completedChallenges: number[], lastUpdated: number}\<close>. What is read back is not
  checked against the type \<^verbatim>\<open>WorkshopProgress\<close>. So an entry of \<^verbatim>\<open>completedChallenges\<close> is
  a challenge id or a number, and the fields that the older shape lacks may be absent.
\<close>

datatype completed_entry = ChallengeId ChallengeType | ChallengeNumber int

text \<open>
  A numeric field of such an object: a number, \<^verbatim>\<open>NaN\<close>, \<^verbatim>\<open>undefined\<close> (the field is
  absent) or \<^verbatim>\<open>null\<close>. The arithmetic is JavaScript's: \<^verbatim>\<open>undefined\<close> counts as \<^verbatim>\<open>NaN\<close>,
  \<^verbatim>\<open>null\<close> as 0, and \<^verbatim>\<open>NaN\<close> spreads.
\<close>

datatype js_number = Number int | NaN | Undefined | Null

fun ToNumber :: "js_number \<Rightarrow> int option" where
  "ToNumber (Number n) = Some n"
| "ToNumber NaN = None"
| "ToNumber Undefined = None"
| "ToNumber Null = Some 0"

definition js_plus :: "js_number \<Rightarrow> js_number \<Rightarrow> js_number" where
  "js_plus a b =
     (case (ToNumber a, ToNumber b) of (Some x, Some y) \<Rightarrow> Number (x + y) | _ \<Rightarrow> NaN)"

definition js_minus :: "js_number \<Rightarrow> js_number \<Rightarrow> js_number" where
  "js_minus a b =
     (case (ToNumber a, ToNumber b) of (Some x, Some y) \<Rightarrow> Number (x - y) | _ \<Rightarrow> NaN)"

record WorkshopProgress =
  completedChallenges :: "completed_entry list"
  lastUpdated :: int
  version :: "nat option"
  participantId :: "string option"
  sessionStarted :: js_number
  timeSpent :: js_number

text \<open>
  What \<^verbatim>\<open>JSON.parse (JSON.stringify p)\<close> gives for a progress object \<open>p\<close>: \<^verbatim>\<open>NaN\<close> is
  written as \<^verbatim>\<open>null\<close>, an absent field stays absent, everything else is read back as it
  was.
\<close>

fun json_number :: "js_number \<Rightarrow> js_number" where
  "json_number (Number n) = Number n"
| "json_number NaN = Null"
| "json_number Undefined = Undefined"
| "json_number Null = Null"

definition json_progress :: "WorkshopProgress \<Rightarrow> WorkshopProgress" where
  "json_progress p =
     p\<lparr>sessionStarted := json_number (sessionStarted p), timeSpent := json_number (timeSpent p)\<rparr>"

text \<open>A \<^verbatim>\<open>ChallengeAttempt\<close>, without its free-form metadata; the field names carry the
  prefix \<open>attempt_\<close>.\<close>

record ChallengeAttempt =
  attempt_challengeId :: ChallengeType
  attempt_timestamp :: int
  attempt_success :: bool
  attempt_error :: "string option"
  attempt_duration :: int
  attempt_transactionHash :: "string option"

section \<open>useChallengeVerification.ts: flag validation\<close>

text \<open>
  A JavaScript string is a sequence of UTF-16 code units, and \<^verbatim>\<open>length\<close>,
  \<^verbatim>\<open>startsWith\<close>, \<^verbatim>\<open>includes\<close>, \<^verbatim>\<open>trim\<close> and the regular expression work on code
  units. \<open>js\<close> reads an ASCII literal as such a string.
\<close>

type_synonym code_unit = "16 word"
type_synonym js_string = "code_unit list"

definition js :: "string \<Rightarrow> js_string" where
  "js s = map (\<lambda>c. of_nat (of_char c)) s"

text \<open>
  What \<^verbatim>\<open>String.prototype.trim\<close> removes: the white space and line terminator code
  points of ECMAScript (TAB, LF, VT, FF, CR, SP, NBSP, U+1680, U+2000 to U+200A, U+2028,
  U+2029, U+202F, U+205F, U+3000, U+FEFF).
\<close>

definition is_white_space :: "code_unit \<Rightarrow> bool" where
  "is_white_space c =
     (let n = unat c
      in (9 \<le> n \<and> n \<le> 13) \<or> n = 32 \<or> n = 160 \<or> n = 5760 \<or> (8192 \<le> n \<and> n \<le> 8202)
         \<or> n = 8232 \<or> n = 8233 \<or> n = 8239 \<or> n = 8287 \<or> n = 12288 \<or> n = 65279)"

definition trim :: "js_string \<Rightarrow> js_string" where
  "trim s = rev (dropWhile is_white_space (rev (dropWhile is_white_space s)))"

definition startsWith :: "js_string \<Rightarrow> js_string \<Rightarrow> bool" where
  "startsWith s p = (take (length p) s = p)"

fun includes_js :: "js_string \<Rightarrow> js_string \<Rightarrow> bool" where
  "includes_js [] p = (p = [])"
| "includes_js (c # cs) p = (startsWith (c # cs) p \<or> includes_js cs p)"

text \<open>The class \<^verbatim>\<open>\d\<close> of a regular expression without the unicode flag: \<^verbatim>\<open>0\<close> to \<^verbatim>\<open>9\<close>.\<close>

definition is_digit :: "code_unit \<Rightarrow> bool" where
  "is_digit c = (48 \<le> unat c \<and> unat c \<le> 57)"

text \<open>\<^verbatim>\<open>flag.match(/^\d+$/) !== null\<close>: one digit or more, and nothing else.\<close>

definition matches_digits :: "js_string \<Rightarrow> bool" where
  "matches_digits s = (s \<noteq> [] \<and> list_all is_digit s)"

text \<open>The map \<^verbatim>\<open>challengeFlags\<close>, as the list of entries it is built from.\<close>

definition challengeFlags :: "(ChallengeType \<times> (js_string \<Rightarrow> bool)) list" where
  "challengeFlags =
     [(TREASURY_MASTER, \<lambda>flag. startsWith flag (js ''0x'') \<and> length flag = 66),
      (STORAGE_SENTINEL, \<lambda>flag. startsWith flag (js ''Qm'') \<and> length flag = 46),
      (DATA_GUARDIAN, \<lambda>flag. startsWith flag (js ''encrypted_'') \<and> length flag > 20),
      (NFT_ARCHITECT, \<lambda>flag. matches_digits flag),
      (DECRYPTION_EXPERT, \<lambda>flag. includes_js flag (js ''decrypted_content''))]"

datatype FlagValidationResult =
  Valid ChallengeType nat
| Invalid string string

fun hints :: "ChallengeType \<Rightarrow> string" where
  "hints TREASURY_MASTER = ''Expected a transaction hash (0x...)''"
| "hints STORAGE_SENTINEL = ''Expected an IPFS CID (Qm...)''"
| "hints DATA_GUARDIAN = ''Expected an encrypted data identifier''"
| "hints NFT_ARCHITECT = ''Expected an NFT token ID (number)''"
| "hints DECRYPTION_EXPERT = ''Expected decrypted content proof''"

text \<open>
  \<^verbatim>\<open>validateChallengeFlag\<close>. \<open>Valid c p\<close> is \<^verbatim>\<open>{valid: true, challengeId: c, points: p}\<close>
  and \<open>Invalid e h\<close> is \<^verbatim>\<open>{valid: false, error: e, hint: h}\<close>. The flag is a string by its
  type, so \<^verbatim>\<open>!flag\<close> holds for the empty string alone. Nothing in the \<^verbatim>\<open>try\<close> block
  throws, so the \<^verbatim>\<open>catch\<close> branch is not taken; every hint of the table is a non-empty
  string, so the fallback hint is not taken either.
\<close>

definition validateChallengeFlag :: "ChallengeType \<Rightarrow> js_string \<Rightarrow> FlagValidationResult" where
  "validateChallengeFlag challengeId flag =
     (if flag = [] then
        Invalid ''Flag cannot be empty''
          ''Enter the flag you received after completing the challenge''
      else
        let trimmedFlag = trim flag
        in if length trimmedFlag = 0 then
             Invalid ''Flag cannot be empty''
               ''Enter the flag you received after completing the challenge''
           else
             case map_of challengeFlags challengeId of
               None \<Rightarrow>
                 Invalid (''No validation logic found for challenge: ''
                            @ ChallengeType_value challengeId)
                   ''This challenge may not be implemented yet''
             | Some validator \<Rightarrow>
                 if \<not> validator trimmedFlag then
                   Invalid ''Invalid flag format'' (hints challengeId)
                 else
                   (case find (\<lambda>c. challenge_id c = challengeId) WORKSHOP_CHALLENGES of
                      Some challenge \<Rightarrow>
                        Valid challengeId (ChallengeDifficulty_value (difficulty challenge) * 100)
                    | None \<Rightarrow> Valid challengeId 100))"

text \<open>The field \<^verbatim>\<open>valid\<close> of a validation result.\<close>

fun valid :: "FlagValidationResult \<Rightarrow> bool" where
  "valid (Valid c p) = True"
| "valid (Invalid e h) = False"


section \<open>useChallengeVerification.ts: local storage\<close>

text \<open>
  \<^verbatim>\<open>localStorage\<close> holds texts. A JSON text is given by the value that was
  serialised into it (\<open>StoredProgress\<close>, \<open>StoredAttempts\<close>, \<open>StoredString\<close>); reading
  it applies what the round trip through JSON does to that value. \<open>StoredText\<close> is a
  text that was stored as it is. \<open>window_defined\<close> is
  \<^verbatim>\<open>typeof window !== 'undefined'\<close>, and \<open>module_loaded\<close> is the value of
  \<^verbatim>\<open>Date.now()\<close> when the module, on the load of the page, built the default progress of
  \<^verbatim>\<open>progressStorage\<close>.
\<close>

datatype stored =
  StoredProgress WorkshopProgress
| StoredAttempts "ChallengeAttempt list"
| StoredString string
| StoredText string

record browser =
  window_defined :: bool
  localStorage :: "string \<rightharpoonup> stored"
  module_loaded :: int

text \<open>
  \<^verbatim>\<open>createStorageUtil(key, _).set\<close>. Whether \<^verbatim>\<open>localStorage.setItem\<close> throws (a
  storage that is full does) is given by \<open>setItem_throws\<close>; the utility rethrows it as a
  \<^verbatim>\<open>WorkshopError\<close>.
\<close>

definition storage_set ::
  "string \<Rightarrow> stored \<Rightarrow> thrown option \<Rightarrow> browser \<Rightarrow> thrown + browser" where
  "storage_set key v setItem_throws b =
     (if \<not> window_defined b then Inr b
      else
        case setItem_throws of
          None \<Rightarrow> Inr (b\<lparr>localStorage := (localStorage b)(key \<mapsto> v)\<rparr>)
        | Some e \<Rightarrow>
            Inl (Error (''Failed to save progress: ''
                          @ (case e of Error m \<Rightarrow> m | NonError \<Rightarrow> ''Unknown error''))))"

text \<open>\<^verbatim>\<open>createStorageUtil(key, _).remove\<close>: a failure is logged and swallowed.\<close>

definition storage_remove :: "string \<Rightarrow> bool \<Rightarrow> browser \<Rightarrow> browser" where
  "storage_remove key removeItem_throws b =
     (if \<not> window_defined b then b
      else if removeItem_throws then b
      else b\<lparr>localStorage := (localStorage b)(key := None)\<rparr>)"

definition default_progress :: "int \<Rightarrow> WorkshopProgress" where
  "default_progress now =
     \<lparr>completedChallenges = [], lastUpdated = 0, version = Some PROGRESS_VERSION,
        participantId = None, sessionStarted = Number now, timeSpent = Number 0\<rparr>"

text \<open>
  \<^verbatim>\<open>JSON.parse\<close> of the item under the progress key, if there is one. Two functions
  write under this key, \<^verbatim>\<open>progressStorage.set\<close> and \<^verbatim>\<open>saveProgress\<close> of
  \<^verbatim>\<open>ChallengeSuccess\<close>, and both write progress objects; what is parsed is returned as
  it is, whichever of the two wrote it. (No operation of the application puts an item of
  another kind under this key, see \<open>progress_key_kept\<close> below; such an item is not
  modelled and counts as no item.)
\<close>

definition parsed_progress :: "browser \<Rightarrow> WorkshopProgress option" where
  "parsed_progress b =
     (case localStorage b PROGRESS_STORAGE_KEY of
        Some (StoredProgress p) \<Rightarrow> Some (json_progress p)
      | _ \<Rightarrow> None)"

text \<open>
  \<^verbatim>\<open>progressStorage.get\<close> and \<^verbatim>\<open>attemptsStorage.get\<close>: \<^verbatim>\<open>item ? JSON.parse(item) :
  defaultValue\<close>, and the default also when there is no window or reading fails.
\<close>

definition progressStorage_get :: "bool \<Rightarrow> browser \<Rightarrow> WorkshopProgress" where
  "progressStorage_get getItem_throws b =
     (if \<not> window_defined b then default_progress (module_loaded b)
      else if getItem_throws then default_progress (module_loaded b)
      else
        case parsed_progress b of
          Some p \<Rightarrow> p
        | None \<Rightarrow> default_progress (module_loaded b))"

definition attemptsStorage_get :: "bool \<Rightarrow> browser \<Rightarrow> ChallengeAttempt list" where
  "attemptsStorage_get getItem_throws b =
     (if \<not> window_defined b then []
      else if getItem_throws then []
      else
        case localStorage b (PROGRESS_STORAGE_KEY @ ''-attempts'') of
          Some (StoredAttempts as) \<Rightarrow> as
        | _ \<Rightarrow> [])"

text \<open>The key of \<^verbatim>\<open>getTransactionStorage(challengeId)\<close>.\<close>

definition transaction_key :: "ChallengeType \<Rightarrow> string" where
  "transaction_key challengeId = ''challenge-'' @ ChallengeType_value challengeId @ ''-tx''"

section \<open>useChallengeVerification.ts: the reducer and the hook's actions\<close>

record ChallengeVerificationState =
  progress :: WorkshopProgress
  attempts :: "ChallengeAttempt list"
  isLoading :: bool
  isSaving :: bool
  state_error :: "string option"

datatype ChallengeVerificationAction =
  LOAD_COMPLETE WorkshopProgress "ChallengeAttempt list"
| START_SAVE
| SAVE_COMPLETE WorkshopProgress
| RECORD_ATTEMPT ChallengeAttempt
| SET_ERROR string
| CLEAR_ERROR
| RESET_PROGRESS

text \<open>
  The reducer. \<open>now1\<close> and \<open>now2\<close> are the values of the two calls of
  \<^verbatim>\<open>Date.now()\<close> in the case \<^verbatim>\<open>RESET_PROGRESS\<close>. The action type is exhaustive, so the
  \<^verbatim>\<open>default\<close> case is not taken.
\<close>

fun challengeVerificationReducer ::
  "int \<Rightarrow> int \<Rightarrow> ChallengeVerificationState \<Rightarrow> ChallengeVerificationAction
     \<Rightarrow> ChallengeVerificationState" where
  "challengeVerificationReducer now1 now2 state (LOAD_COMPLETE p as) =
     state\<lparr>progress := p, attempts := as, isLoading := False, state_error := None\<rparr>"
| "challengeVerificationReducer now1 now2 state START_SAVE =
     state\<lparr>isSaving := True, state_error := None\<rparr>"
| "challengeVerificationReducer now1 now2 state (SAVE_COMPLETE p) =
     state\<lparr>progress := p, isSaving := False, state_error := None\<rparr>"
| "challengeVerificationReducer now1 now2 state (RECORD_ATTEMPT a) =
     state\<lparr>attempts := attempts state @ [a]\<rparr>"
| "challengeVerificationReducer now1 now2 state (SET_ERROR e) =
     state\<lparr>isLoading := False, isSaving := False, state_error := Some e\<rparr>"
| "challengeVerificationReducer now1 now2 state CLEAR_ERROR =
     state\<lparr>state_error := None\<rparr>"
| "challengeVerificationReducer now1 now2 state RESET_PROGRESS =
     state\<lparr>progress :=
             \<lparr>completedChallenges = [], lastUpdated = now1, version = Some PROGRESS_VERSION,
                participantId = None, sessionStarted = Number now2, timeSpent = Number 0\<rparr>,
           attempts := [], isSaving := False, state_error := None\<rparr>"

text \<open>The state that \<^verbatim>\<open>useReducer\<close> starts from.\<close>

definition initial_state :: "int \<Rightarrow> ChallengeVerificationState" where
  "initial_state now =
     \<lparr>progress = default_progress now, attempts = [], isLoading = True, isSaving = False,
        state_error = None\<rparr>"

text \<open>
  The effect that runs when the hook mounts: read both items, dispatch
  \<^verbatim>\<open>LOAD_COMPLETE\<close>. The two reads swallow their failures, so the \<^verbatim>\<open>catch\<close> branch of
  the effect is not taken.
\<close>

definition mount ::
  "int \<Rightarrow> bool \<Rightarrow> bool \<Rightarrow> browser \<Rightarrow> ChallengeVerificationState" where
  "mount now progress_read_throws attempts_read_throws b =
     challengeVerificationReducer now now (initial_state now)
       (LOAD_COMPLETE (progressStorage_get progress_read_throws b)
          (attemptsStorage_get attempts_read_throws b))"

text \<open>The message that a \<^verbatim>\<open>catch\<close> block of the hook shows: the error's own, or a default.\<close>

definition error_message :: "thrown \<Rightarrow> string \<Rightarrow> string" where
  "error_message e fallback = (case e of Error m \<Rightarrow> m | NonError \<Rightarrow> fallback)"

text \<open>
  The progress that \<^verbatim>\<open>completeChallenge\<close> builds from the progress \<open>p\<close> it reads:
  \<^verbatim>\<open>includes\<close> compares an id with the entries, and an id equals no number.
\<close>

definition updatedProgress :: "ChallengeType \<Rightarrow> int \<Rightarrow> int \<Rightarrow> WorkshopProgress \<Rightarrow> WorkshopProgress" where
  "updatedProgress challengeId now1 now2 p =
     p\<lparr>completedChallenges :=
         (if ChallengeId challengeId \<in> set (completedChallenges p) then completedChallenges p
          else completedChallenges p @ [ChallengeId challengeId]),
       lastUpdated := now1,
       timeSpent := js_plus (timeSpent p) (js_minus (Number now2) (sessionStarted p))\<rparr>"

text \<open>
  \<^verbatim>\<open>completeChallenge(challengeId, transactionHash)\<close>. \<open>now1\<close> and \<open>now2\<close> are the
  values of its two calls of \<^verbatim>\<open>Date.now()\<close>, \<open>throws1\<close> and \<open>throws2\<close> tell whether
  the write of the progress and the write of the transaction hash fail. The callback is
  created by \<^verbatim>\<open>useCallback\<close> during a render, and the \<^verbatim>\<open>state.progress\<close> it reads is
  the progress of that render: \<open>captured\<close>. The actions it dispatches act on the state
  of the hook as it is when they are dispatched. The result is the rejection of the
  returned promise (if any), the state after the dispatched actions, and the browser. An
  absent or empty \<open>transactionHash\<close> is falsy and is not written.
\<close>

definition completeChallenge ::
  "ChallengeType \<Rightarrow> string option \<Rightarrow> int \<Rightarrow> int \<Rightarrow> thrown option \<Rightarrow> thrown option
     \<Rightarrow> WorkshopProgress \<Rightarrow> ChallengeVerificationState \<times> browser
     \<Rightarrow> thrown option \<times> ChallengeVerificationState \<times> browser" where
  "completeChallenge challengeId txHash now1 now2 throws1 throws2 captured sb =
     (let (state, b) = sb;
          saving = challengeVerificationReducer now1 now2 state START_SAVE;
          updated = updatedProgress challengeId now1 now2 captured
      in case storage_set PROGRESS_STORAGE_KEY (StoredProgress updated) throws1 b of
           Inl e \<Rightarrow>
             (Some e,
              challengeVerificationReducer now1 now2 saving
                (SET_ERROR (error_message e ''Failed to save progress'')), b)
         | Inr b1 \<Rightarrow>
             (case (case txHash of
                      None \<Rightarrow> Inr b1
                    | Some h \<Rightarrow>
                        if h = [] then Inr b1
                        else storage_set (transaction_key challengeId) (StoredString h) throws2 b1) of
                Inl e \<Rightarrow>
                  (Some e,
                   challengeVerificationReducer now1 now2 saving
                     (SET_ERROR (error_message e ''Failed to save progress'')), b1)
              | Inr b2 \<Rightarrow>
                  (None,
                   challengeVerificationReducer now1 now2 saving (SAVE_COMPLETE updated), b2)))"

text \<open>
  \<^verbatim>\<open>resetProgress\<close>: remove the progress, the attempts and every transaction hash, then
  dispatch \<^verbatim>\<open>RESET_PROGRESS\<close>. \<open>remove_throws\<close> tells for which keys
  \<^verbatim>\<open>removeItem\<close> fails; no failure escapes \<^verbatim>\<open>remove\<close>, so the promise resolves.
\<close>

definition resetProgress ::
  "int \<Rightarrow> int \<Rightarrow> (string \<Rightarrow> bool) \<Rightarrow> ChallengeVerificationState \<times> browser
     \<Rightarrow> ChallengeVerificationState \<times> browser" where
  "resetProgress now1 now2 remove_throws sb =
     (let (state, b) = sb;
          saving = challengeVerificationReducer now1 now2 state START_SAVE;
          b1 = storage_remove PROGRESS_STORAGE_KEY (remove_throws PROGRESS_STORAGE_KEY) b;
          b2 = storage_remove (PROGRESS_STORAGE_KEY @ ''-attempts'')
                 (remove_throws (PROGRESS_STORAGE_KEY @ ''-attempts'')) b1;
          b3 = fold (\<lambda>challengeId. storage_remove (transaction_key challengeId)
                      (remove_throws (transaction_key challengeId)))
                 ChallengeType_values b2
      in (challengeVerificationReducer now1 now2 saving RESET_PROGRESS, b3))"

text \<open>A browser in which nothing is stored yet.\<close>

definition fresh_browser :: "int \<Rightarrow> bool \<Rightarrow> browser" where
  "fresh_browser loaded window =
     \<lparr>window_defined = window, localStorage = Map.empty, module_loaded = loaded\<rparr>"


section \<open>Components: FileUpload, NFTMinter, EncryptedNFTMinter\<close>

text \<open>
  A browser \<^verbatim>\<open>File\<close>, by its name, its size in bytes and its MIME type. The input of
  \<^verbatim>\<open>handleFileSelect\<close> is a \<^verbatim>\<open>FileList\<close> or \<^verbatim>\<open>null\<close>: \<open>None\<close> or \<open>Some\<close> of the list
  of files. Each handler returns the component's next state together with the texts it
  shows with \<^verbatim>\<open>alert\<close>.
\<close>

record File =
  file_name :: string
  file_size :: nat
  file_type :: string

record FileUpload_state =
  selectedFile :: "File option"
  dragActive :: bool

definition FileUpload_handleFileSelect ::
  "File list option \<Rightarrow> FileUpload_state \<Rightarrow> FileUpload_state \<times> string list" where
  "FileUpload_handleFileSelect files s =
     (case files of
        Some (file # _) \<Rightarrow>
          if file_size file > 100 * 1024 * 1024 then (s, [''File size must be less than 100MB''])
          else (s\<lparr>selectedFile := Some file\<rparr>, [])
      | _ \<Rightarrow> (s, []))"

text \<open>
  A call of \<^verbatim>\<open>writeContractAsync\<close>: the contract that the hook
  \<^verbatim>\<open>useScaffoldWriteContract\<close> was created for, the function name and the arguments.
\<close>

datatype contract_arg = StringArg string | StringListArg "string list"

record contract_call =
  contractName :: string
  functionName :: string
  args :: "contract_arg list"

record NFTMinter_state =
  selectedFile :: "File option"
  dragActive :: bool
  mintedTokenId :: bool
  pieceCid :: "string option"

definition NFTMinter_handleFileSelect ::
  "File list option \<Rightarrow> NFTMinter_state \<Rightarrow> NFTMinter_state \<times> string list" where
  "NFTMinter_handleFileSelect files s =
     (case files of
        Some (file # _) \<Rightarrow>
          if file_size file > 100 * 1024 * 1024 then (s, [''File size must be less than 100MB''])
          else (s\<lparr>selectedFile := Some file, pieceCid := None, mintedTokenId := False\<rparr>, [])
      | _ \<Rightarrow> (s, []))"

text \<open>
  \<^verbatim>\<open>NFTMinter.handleUploadAndMint\<close>. \<open>address\<close> is the connected wallet, \<open>upload\<close> the
  outcome of the upload mutation (an absent or empty piece CID is \<open>Inr None\<close> or
  \<open>Inr (Some [])\<close>), \<open>minting\<close> the outcome of the contract write. The result is the
  next state and the contract calls made.
\<close>

definition handleUploadAndMint ::
  "string option \<Rightarrow> thrown + string option \<Rightarrow> thrown + unit \<Rightarrow> NFTMinter_state
     \<Rightarrow> NFTMinter_state \<times> contract_call list" where
  "handleUploadAndMint address upload minting s =
     (if selectedFile s = None \<or> address = None \<or> address = Some [] then (s, [])
      else
        case upload of
          Inl e \<Rightarrow> (s, [])
        | Inr None \<Rightarrow> (s, [])
        | Inr (Some uploadResult) \<Rightarrow>
            if uploadResult = [] then (s, [])
            else
              let s1 = s\<lparr>pieceCid := Some uploadResult\<rparr>;
                  call = \<lparr>contractName = ''NFTContract'', functionName = ''mint'',
                            args = [StringArg uploadResult]\<rparr>
              in (case minting of
                    Inl e \<Rightarrow> (s1, [call])
                  | Inr _ \<Rightarrow> (s1\<lparr>mintedTokenId := True\<rparr>, [call])))"

datatype mint_type = Public | Private

record EncryptedNFTMinter_state =
  selectedFile :: "File option"
  dragActive :: bool
  accessAddresses :: "string list"
  mintType :: mint_type
  mintedTokenId :: "string option"
  pieceCid :: "string option"

text \<open>The state that the component's \<^verbatim>\<open>useState\<close> calls start from.\<close>

definition EncryptedNFTMinter_initial :: EncryptedNFTMinter_state where
  "EncryptedNFTMinter_initial =
     \<lparr>selectedFile = None, dragActive = False, accessAddresses = [[]], mintType = Public,
        mintedTokenId = None, pieceCid = None\<rparr>"

definition EncryptedNFTMinter_handleFileSelect ::
  "File list option \<Rightarrow> EncryptedNFTMinter_state \<Rightarrow> EncryptedNFTMinter_state \<times> string list" where
  "EncryptedNFTMinter_handleFileSelect files s =
     (case files of
        Some (file # _) \<Rightarrow>
          if file_size file > 100 * 1024 * 1024 then (s, [''File size must be less than 100MB''])
          else (s\<lparr>selectedFile := Some file, pieceCid := None, mintedTokenId := None\<rparr>, [])
      | _ \<Rightarrow> (s, []))"

definition setMintType :: "mint_type \<Rightarrow> EncryptedNFTMinter_state \<Rightarrow> EncryptedNFTMinter_state" where
  "setMintType t s = s\<lparr>mintType := t\<rparr>"

text \<open>
  \<^verbatim>\<open>EncryptedNFTMinter.handleEncryptUploadAndMint\<close>, with the outcome of the
  encrypt-and-upload mutation and of the contract write. The handler does not read
  \<^verbatim>\<open>mintType\<close>.
\<close>

definition handleEncryptUploadAndMint ::
  "string option \<Rightarrow> thrown + string \<Rightarrow> thrown + unit \<Rightarrow> EncryptedNFTMinter_state
     \<Rightarrow> EncryptedNFTMinter_state \<times> contract_call list" where
  "handleEncryptUploadAndMint address upload minting s =
     (if selectedFile s = None \<or> address = None \<or> address = Some [] then (s, [])
      else
        case upload of
          Inl e \<Rightarrow> (s, [])
        | Inr cid \<Rightarrow>
            let s1 = s\<lparr>pieceCid := Some cid\<rparr>;
                call = \<lparr>contractName = ''LitEncryptedNFT'', functionName = ''mintPrivate'',
                          args = [StringArg cid, StringListArg (accessAddresses s)]\<rparr>
            in (case minting of
                  Inl e \<Rightarrow> (s1, [call])
                | Inr _ \<Rightarrow> (s1\<lparr>mintedTokenId := Some ''1''\<rparr>, [call])))"


section \<open>useDatasets: the query function\<close>

text \<open>
  The types of the storage SDK are external. Of an \<^verbatim>\<open>EnhancedDataSetInfo\<close> the hook
  reads \<^verbatim>\<open>providerId\<close>, \<^verbatim>\<open>payee\<close> and \<^verbatim>\<open>pdpVerifierDataSetId\<close>; all its other fields
  are kept together in \<open>other_fields\<close>. Of a provider it reads \<^verbatim>\<open>id\<close> and
  \<^verbatim>\<open>products.PDP?.data.serviceURL\<close> (\<open>None\<close> when the product or the URL is absent).
  A \<^verbatim>\<open>DataSet\<close> is the object \<^verbatim>\<open>{...dataset, provider, serviceURL, data}\<close>: the record
  of the dataset, extended by three fields, each of which may be undefined.
\<close>

record 'a EnhancedDataSetInfo =
  providerId :: nat
  payee :: string
  pdpVerifierDataSetId :: nat
  other_fields :: 'a

record 'p ProviderInfo =
  provider_id :: nat
  PDP_serviceURL :: "string option"
  provider_details :: 'p

record ('a, 'p, 'd) DataSet = "'a EnhancedDataSetInfo" +
  provider :: "'p ProviderInfo option"
  serviceURL :: "string option"
  data :: "'d option"

text \<open>
  The outcomes of the SDK calls that one run of the query function makes. Each call
  resolves with a value or rejects; a call that is made for several arguments is given
  as a function of its arguments. \<^verbatim>\<open>pdp_getDataSet url id\<close> stands for
  \<^verbatim>\<open>new PDPServer(null, url).getDataSet(id)\<close>. When both calls of the first
  \<^verbatim>\<open>Promise.all\<close> reject, \<open>providerIds_rejects_first\<close> tells which rejection comes first
  and so becomes the rejection of the whole.
\<close>

record ('a, 'p, 'd) sdk =
  Synapse_create :: "thrown option"
  WarmStorageService_create :: "thrown option"
  getApprovedProviderIds :: "thrown + nat list"
  getClientDataSetsWithDetails :: "thrown + 'a EnhancedDataSetInfo list"
  providerIds_rejects_first :: bool
  getProviderInfo :: "nat \<Rightarrow> thrown + 'p ProviderInfo"
  pdp_getDataSet :: "string \<Rightarrow> nat \<Rightarrow> thrown + 'd"

text \<open>Step 4: \<^verbatim>\<open>providerIdToAddressMap\<close>; a later dataset overwrites an earlier one.\<close>

definition providerIdToAddressMap :: "'a EnhancedDataSetInfo list \<Rightarrow> (nat \<rightharpoonup> string)" where
  "providerIdToAddressMap datasets =
     fold (\<lambda>dataset acc. acc(providerId dataset \<mapsto> payee dataset)) datasets Map.empty"

text \<open>
  Step 5: one entry per approved provider, \<open>None\<close> (the source's \<^verbatim>\<open>null\<close>) when the
  provider has no address (none, or the empty string) or when fetching it fails.
\<close>

definition fetch_provider ::
  "('a, 'p, 'd) sdk \<Rightarrow> (nat \<rightharpoonup> string) \<Rightarrow> nat \<Rightarrow> 'p ProviderInfo option" where
  "fetch_provider env addresses pid =
     (case addresses pid of
        None \<Rightarrow> None
      | Some providerAddress \<Rightarrow>
          if providerAddress = [] then None
          else (case getProviderInfo env pid of Inl error \<Rightarrow> None | Inr info \<Rightarrow> Some info))"

definition filteredProviders :: "'p ProviderInfo option list \<Rightarrow> 'p ProviderInfo list" where
  "filteredProviders providers = map the (filter (\<lambda>provider. provider \<noteq> None) providers)"

text \<open>Step 6: \<^verbatim>\<open>providerIdToServiceUrlMap\<close>, with \<^verbatim>\<open>|| ""\<close> for an absent or empty URL.\<close>

definition providerIdToServiceUrlMap :: "'p ProviderInfo list \<Rightarrow> (nat \<rightharpoonup> string)" where
  "providerIdToServiceUrlMap ps =
     fold (\<lambda>p acc. acc(provider_id p \<mapsto> (case PDP_serviceURL p of None \<Rightarrow> [] | Some u \<Rightarrow> u)))
       ps Map.empty"

text \<open>
  Step 7, for one dataset: look the service URL and the provider up, fetch the details.
  The \<^verbatim>\<open>catch\<close> branch returns the dataset without \<^verbatim>\<open>data\<close>.
\<close>

definition datasetDetails ::
  "('a, 'p, 'd) sdk \<Rightarrow> (nat \<rightharpoonup> string) \<Rightarrow> 'p ProviderInfo list \<Rightarrow> 'a EnhancedDataSetInfo
     \<Rightarrow> ('a, 'p, 'd) DataSet" where
  "datasetDetails env urls ps dataset =
     (let url = urls (providerId dataset);
          found = find (\<lambda>p. provider_id p = providerId dataset) ps
      in case pdp_getDataSet env (case url of None \<Rightarrow> [] | Some u \<Rightarrow> u)
                (pdpVerifierDataSetId dataset) of
           Inr d \<Rightarrow>
             EnhancedDataSetInfo.extend dataset
               (DataSet.fields found url (Some d))
         | Inl error \<Rightarrow>
             EnhancedDataSetInfo.extend dataset
               (DataSet.fields found url None))"

text \<open>
  The first \<^verbatim>\<open>Promise.all\<close>: both results, or the rejection that comes first.
\<close>

definition fetch_ids_and_datasets ::
  "('a, 'p, 'd) sdk \<Rightarrow> thrown + (nat list \<times> 'a EnhancedDataSetInfo list)" where
  "fetch_ids_and_datasets env =
     (case (getApprovedProviderIds env, getClientDataSetsWithDetails env) of
        (Inr providerIds, Inr datasets) \<Rightarrow> Inr (providerIds, datasets)
      | (Inl e, Inr datasets) \<Rightarrow> Inl e
      | (Inr providerIds, Inl e) \<Rightarrow> Inl e
      | (Inl e1, Inl e2) \<Rightarrow> Inl (if providerIds_rejects_first env then e1 else e2))"

text \<open>
  The query function. The result \<^verbatim>\<open>{datasets: datasetsWithDetails}\<close> is given by its
  list; an entry is \<open>None\<close> where \<^verbatim>\<open>find\<close> returns \<^verbatim>\<open>undefined\<close>.
\<close>

definition queryFn ::
  "'s option \<Rightarrow> string option \<Rightarrow> ('a, 'p, 'd) sdk
     \<Rightarrow> thrown + ('a, 'p, 'd) DataSet option list" where
  "queryFn signer address env =
     (if signer = None then Inl (Error ''Signer not found'')
      else if address = None \<or> address = Some [] then Inl (Error ''Address not found'')
      else
        case Synapse_create env of
          Some e \<Rightarrow> Inl e
        | None \<Rightarrow>
            (case WarmStorageService_create env of
               Some e \<Rightarrow> Inl e
             | None \<Rightarrow>
                 (case fetch_ids_and_datasets env of
                    Inl e \<Rightarrow> Inl e
                  | Inr (providerIds, datasets) \<Rightarrow>
                      let addresses = providerIdToAddressMap datasets;
                          providers = map (fetch_provider env addresses) providerIds;
                          ps = filteredProviders providers;
                          urls = providerIdToServiceUrlMap ps;
                          datasetDataResults = map (datasetDetails env urls ps) datasets;
                          datasetsWithDetails =
                            map (\<lambda>dataset.
                                   find (\<lambda>result. pdpVerifierDataSetId result
                                                    = pdpVerifierDataSetId dataset)
                                     datasetDataResults)
                              datasets
                      in Inr datasetsWithDetails)))"

text \<open>
  A run in which the one provider cannot be fetched and the details of the one dataset
  cannot be fetched either.
\<close>

definition failing_fetches :: "(unit, unit, string) sdk" where
  "failing_fetches =
     \<lparr>Synapse_create = None, WarmStorageService_create = None,
        getApprovedProviderIds = Inr [1],
        getClientDataSetsWithDetails =
          Inr [\<lparr>providerId = 1, payee = ''0xP'', pdpVerifierDataSetId = 7, other_fields = ()\<rparr>],
        providerIds_rejects_first = True,
        getProviderInfo = (\<lambda>pid. Inl (Error ''provider unavailable'')),
        pdp_getDataSet = (\<lambda>url id. Inl (Error ''fetch failed''))\<rparr>"

text \<open>A run in which the datasets of the client cannot be fetched.\<close>

definition failing_datasets :: "(unit, unit, string) sdk" where
  "failing_datasets =
     \<lparr>Synapse_create = None, WarmStorageService_create = None,
        getApprovedProviderIds = Inr [1],
        getClientDataSetsWithDetails = Inl (Error ''rpc unreachable''),
        providerIds_rejects_first = True,
        getProviderInfo = (\<lambda>pid. Inl (Error ''provider unavailable'')),
        pdp_getDataSet = (\<lambda>url id. Inl (Error ''fetch failed''))\<rparr>"

text \<open>
  A run in which everything is fetched: two datasets of provider 1, whose service
  answers with the pieces of each dataset.
\<close>

definition working_fetches :: "(unit, unit, string list) sdk" where
  "working_fetches =
     \<lparr>Synapse_create = None, WarmStorageService_create = None,
        getApprovedProviderIds = Inr [1],
        getClientDataSetsWithDetails =
          Inr [\<lparr>providerId = 1, payee = ''0xP'', pdpVerifierDataSetId = 7, other_fields = ()\<rparr>,
               \<lparr>providerId = 1, payee = ''0xP'', pdpVerifierDataSetId = 9, other_fields = ()\<rparr>],
        providerIds_rejects_first = True,
        getProviderInfo =
          (\<lambda>pid. Inr \<lparr>provider_id = pid, PDP_serviceURL = Some ''https://pdp.example'',
                         provider_details = ()\<rparr>),
        pdp_getDataSet = (\<lambda>url id. if id = 7 then Inr [''piece-a''] else Inr [])\<rparr>"

text \<open>
  Steps 4 to 9 together: the list that the query function resolves with, for the
  provider ids and the datasets fetched in step 3.
\<close>

definition enriched ::
  "('a, 'p, 'd) sdk \<Rightarrow> nat list \<Rightarrow> 'a EnhancedDataSetInfo list \<Rightarrow> ('a, 'p, 'd) DataSet option list" where
  "enriched env providerIds datasets =
     (let ps = filteredProviders
                 (map (fetch_provider env (providerIdToAddressMap datasets)) providerIds);
          urls = providerIdToServiceUrlMap ps
      in map (\<lambda>dataset. find (\<lambda>result. pdpVerifierDataSetId result
                                         = pdpVerifierDataSetId dataset)
                           (map (datasetDetails env urls ps) datasets)) datasets)"


section \<open>useFileUploadEnhanced: upload and cancellation\<close>

text \<open>
  The input of an upload: a \<^verbatim>\<open>File\<close>, or raw bytes (given by their number) as a
  \<^verbatim>\<open>Uint8Array\<close> or an \<^verbatim>\<open>ArrayBuffer\<close>.
\<close>

datatype FileInput = FileIn File | Uint8ArrayIn nat | ArrayBufferIn nat

record FileData =
  fileName :: string
  data_size :: nat
  data_type :: string

text \<open>\<^verbatim>\<open>convertFileInput\<close>, once the bytes of a \<^verbatim>\<open>File\<close> have been read.\<close>

fun convertFileInput :: "FileInput \<Rightarrow> FileData" where
  "convertFileInput (FileIn f) =
     \<lparr>fileName = file_name f, data_size = file_size f, data_type = file_type f\<rparr>"
| "convertFileInput (ArrayBufferIn n) =
     \<lparr>fileName = ''upload.bin'', data_size = n, data_type = ''application/octet-stream''\<rparr>"
| "convertFileInput (Uint8ArrayIn n) =
     \<lparr>fileName = ''upload.bin'', data_size = n, data_type = ''application/octet-stream''\<rparr>"

text \<open>
  Of an \<^verbatim>\<open>UploadConfig\<close>, the two fields that validation reads. Whether an allowed type
  with a wildcard matches is decided by a regular expression; \<open>wildcard_test\<close> stands
  for that test.
\<close>

record UploadConfig =
  maxFileSize :: "nat option"
  allowedTypes :: "string list option"

datatype validation_error = SizeExceeds nat nat | TypeNotAllowed string "string list" | EmptyFile

text \<open>
  \<^verbatim>\<open>validateFileInternal\<close>: the list of errors, empty for a valid file. Each error
  stands for its message.
\<close>

definition validateFileInternal ::
  "(string \<Rightarrow> string \<Rightarrow> bool) \<Rightarrow> FileData \<Rightarrow> UploadConfig \<Rightarrow> validation_error list" where
  "validateFileInternal wildcard_test file config =
     (let maxSize = (case maxFileSize config of None \<Rightarrow> 100 * 1024 * 1024 | Some m \<Rightarrow> m)
      in (if data_size file > maxSize then [SizeExceeds (data_size file) maxSize] else [])
         @ (case allowedTypes config of
              None \<Rightarrow> []
            | Some types \<Rightarrow>
                if types \<noteq> [] \<and>
                   \<not> list_ex (\<lambda>allowedType.
                        if CHR ''*'' \<in> set allowedType then wildcard_test allowedType (data_type file)
                        else data_type file = allowedType) types
                then [TypeNotAllowed (data_type file) types] else [])
         @ (if data_size file = 0 then [EmptyFile] else []))"

text \<open>An error text: a literal message, or the message that lists validation errors.\<close>

datatype error_text = Text string | ValidationFailed "validation_error list"

record FileStorageResult =
  result_cid :: string
  result_transactionHash :: string
  fileSize :: nat
  result_fileName :: string
  uploadTime :: int

text \<open>The union \<^verbatim>\<open>UploadProgressState\<close>, one constructor per status.\<close>

datatype UploadProgressState =
  Idle
| Converting nat
| Initializing nat string
| Uploading nat string nat
| Processing nat "string option"
| Confirming nat string
| Completed FileStorageResult
| Failed nat error_text "string option"

fun progress_of :: "UploadProgressState \<Rightarrow> nat" where
  "progress_of Idle = 0"
| "progress_of (Converting p) = p"
| "progress_of (Initializing p m) = p"
| "progress_of (Uploading p n s) = p"
| "progress_of (Processing p c) = p"
| "progress_of (Confirming p c) = p"
| "progress_of (Completed r) = 100"
| "progress_of (Failed p e n) = p"

text \<open>
  A running \<^verbatim>\<open>mutationFn\<close> is suspended at one of its \<^verbatim>\<open>await\<close>s: the conversion of
  the input, the timer inside the loop (with the loop variable), the timer after the
  loop. It keeps its arguments and the progress state that its closure captured.
\<close>

datatype suspended = AwaitConvert | AwaitLoopTimer nat | AwaitProcessingTimer

record mutation_frame =
  at :: suspended
  input :: FileInput
  mergedConfig :: UploadConfig
  captured :: UploadProgressState

text \<open>
  The hook: its progress state, the \<^verbatim>\<open>AbortController\<close>s created so far (each by its
  \<^verbatim>\<open>signal.aborted\<close> flag), \<^verbatim>\<open>cancelTokenRef.current\<close> as the index of a controller or
  \<open>None\<close> for \<^verbatim>\<open>null\<close>, the running mutation, and the outcome of the last finished one
  (\<open>Inl\<close>: the promise was rejected).
\<close>

record upload_hook =
  progressState :: UploadProgressState
  controllers :: "bool list"
  cancelTokenRef :: "nat option"
  running :: "mutation_frame option"
  settled :: "(error_text + FileStorageResult) option"
  recorded_attempts :: "bool list"

definition upload_hook_initial :: upload_hook where
  "upload_hook_initial =
     \<lparr>progressState = Idle, controllers = [], cancelTokenRef = None, running = None,
        settled = None, recorded_attempts = []\<rparr>"

text \<open>\<^verbatim>\<open>canCancel\<close>, as the component shows it.\<close>

fun canCancel :: "UploadProgressState \<Rightarrow> bool" where
  "canCancel (Converting p) = True"
| "canCancel (Initializing p m) = True"
| "canCancel (Uploading p n s) = True"
| "canCancel (Processing p c) = True"
| "canCancel _ = False"

text \<open>\<^verbatim>\<open>cancelTokenRef.current?.signal.aborted\<close>: undefined, so falsy, when the ref is null.\<close>

definition signal_aborted :: "upload_hook \<Rightarrow> bool" where
  "signal_aborted h =
     (case cancelTokenRef h of None \<Rightarrow> False | Some c \<Rightarrow> c < length (controllers h) \<and> controllers h ! c)"

text \<open>
  \<^verbatim>\<open>cancelUpload\<close>: abort the controller that the ref holds and set the ref to null,
  then set the progress state to failed.
\<close>

definition cancelUpload :: "upload_hook \<Rightarrow> upload_hook" where
  "cancelUpload h =
     (let h1 = (case cancelTokenRef h of
                  None \<Rightarrow> h
                | Some c \<Rightarrow> h\<lparr>controllers := (controllers h)[c := True], cancelTokenRef := None\<rparr>)
      in h1\<lparr>progressState :=
               Failed (progress_of (progressState h)) (Text ''Upload cancelled by user'')
                 (case progressState h of Uploading p n s \<Rightarrow> Some n | _ \<Rightarrow> None)\<rparr>)"

text \<open>
  The \<^verbatim>\<open>catch\<close> and \<^verbatim>\<open>finally\<close> blocks of \<^verbatim>\<open>mutationFn\<close>: the progress state becomes
  failed, with the progress that the closure captured; the failed attempt is recorded;
  the promise is rejected; the ref is set to null.
\<close>

definition mutation_throws :: "error_text \<Rightarrow> mutation_frame \<Rightarrow> upload_hook \<Rightarrow> upload_hook" where
  "mutation_throws e frame h =
     h\<lparr>progressState :=
         Failed (progress_of (captured frame)) e
           (case input frame of FileIn f \<Rightarrow> Some (file_name f) | _ \<Rightarrow> None),
       recorded_attempts := recorded_attempts h @ [False],
       settled := Some (Inl e),
       running := None,
       cancelTokenRef := None\<rparr>"

text \<open>Calling \<^verbatim>\<open>mutationFn\<close>: it runs up to its first \<^verbatim>\<open>await\<close>.\<close>

definition mutation_start :: "FileInput \<Rightarrow> UploadConfig \<Rightarrow> upload_hook \<Rightarrow> upload_hook" where
  "mutation_start file config h =
     h\<lparr>progressState := Converting 10,
       running := Some \<lparr>at = AwaitConvert, input = file, mergedConfig = config,
                         captured = progressState h\<rparr>,
       settled := None\<rparr>"

text \<open>
  The head of the loop \<^verbatim>\<open>for (progress = ...; progress < 80; progress += 10)\<close>, entered
  with the loop variable \<open>p\<close>: inside the loop the abort signal is checked and the timer
  is awaited; after the loop the state becomes processing and the second timer is
  awaited.
\<close>

definition loop_head :: "nat \<Rightarrow> mutation_frame \<Rightarrow> upload_hook \<Rightarrow> upload_hook" where
  "loop_head p frame h =
     (if p < 80 then
        (if signal_aborted h then mutation_throws (Text ''Upload cancelled'') frame h
         else h\<lparr>running := Some (frame\<lparr>at := AwaitLoopTimer p\<rparr>)\<rparr>)
      else
        h\<lparr>progressState := Processing 80 (Some ''QmExamplePieceCID123456789''),
          running := Some (frame\<lparr>at := AwaitProcessingTimer\<rparr>)\<rparr>)"

text \<open>
  The awaited promise settles and \<^verbatim>\<open>mutationFn\<close> runs on to its next \<^verbatim>\<open>await\<close> or to
  its end. \<open>rejected\<close> is the rejection of the awaited promise, if it rejects (reading a
  \<^verbatim>\<open>File\<close> may; the timers do not); \<open>now\<close> is the clock.
\<close>

definition mutation_resume ::
  "(string \<Rightarrow> string \<Rightarrow> bool) \<Rightarrow> error_text option \<Rightarrow> int \<Rightarrow> upload_hook \<Rightarrow> upload_hook" where
  "mutation_resume wildcard_test rejected now h =
     (case running h of
        None \<Rightarrow> h
      | Some frame \<Rightarrow>
          (case at frame of
             AwaitConvert \<Rightarrow>
               (case rejected of
                  Some e \<Rightarrow> mutation_throws e frame h
                | None \<Rightarrow>
                    let fileData = convertFileInput (input frame);
                        errors = validateFileInternal wildcard_test fileData (mergedConfig frame)
                    in if errors \<noteq> [] then mutation_throws (ValidationFailed errors) frame h
                       else
                         let h1 = h\<lparr>controllers := controllers h @ [False],
                                    cancelTokenRef := Some (length (controllers h))\<rparr>;
                             h2 = h1\<lparr>progressState := Initializing 20 ''Initializing upload...''\<rparr>;
                             h3 = h2\<lparr>progressState :=
                                       Uploading 30 (fileName fileData) (data_size fileData)\<rparr>
                         in loop_head 30 frame h3)
           | AwaitLoopTimer p \<Rightarrow>
               let fileData = convertFileInput (input frame);
                   h1 = h\<lparr>progressState := Uploading p (fileName fileData) (data_size fileData)\<rparr>
               in loop_head (p + 10) frame h1
           | AwaitProcessingTimer \<Rightarrow>
               let fileData = convertFileInput (input frame);
                   result = \<lparr>result_cid = ''QmExamplePieceCID123456789'',
                              result_transactionHash = ''0x'' @ replicate 64 CHR ''0'',
                              fileSize = data_size fileData,
                              result_fileName = fileName fileData,
                              uploadTime = now\<rparr>
               in h\<lparr>progressState := Completed result,
                   recorded_attempts := recorded_attempts h @ [True],
                   settled := Some (Inr result),
                   running := None,
                   cancelTokenRef := None\<rparr>))"

text \<open>
  What happens to the hook, one event after the other: the user starts an upload, an
  awaited promise settles, the user cancels.
\<close>

datatype upload_event =
  StartUpload FileInput UploadConfig
| Settle "error_text option" int
| CancelUpload

fun upload_step :: "(string \<Rightarrow> string \<Rightarrow> bool) \<Rightarrow> upload_event \<Rightarrow> upload_hook \<Rightarrow> upload_hook" where
  "upload_step wildcard_test (StartUpload file config) h = mutation_start file config h"
| "upload_step wildcard_test (Settle rejected now) h = mutation_resume wildcard_test rejected now h"
| "upload_step wildcard_test CancelUpload h = cancelUpload h"

definition upload_run ::
  "(string \<Rightarrow> string \<Rightarrow> bool) \<Rightarrow> upload_event list \<Rightarrow> upload_hook \<Rightarrow> upload_hook" where
  "upload_run wildcard_test events h = fold (upload_step wildcard_test) events h"

text \<open>An upload of a small text file under the default configuration.\<close>

definition small_file :: FileInput where
  "small_file = FileIn \<lparr>file_name = ''a.txt'', file_size = 12, file_type = ''text/plain''\<rparr>"

definition default_config :: UploadConfig where
  "default_config = \<lparr>maxFileSize = None, allowedTypes = None\<rparr>"

definition no_wildcards :: "string \<Rightarrow> string \<Rightarrow> bool" where
  "no_wildcards pattern t = False"


section \<open>formatCurrency\<close>

text \<open>
  A \<^verbatim>\<open>bigint\<close> is an integer. Division of bigints truncates towards zero and the
  remainder takes the sign of the dividend.
\<close>

definition bigint_div :: "int \<Rightarrow> int \<Rightarrow> int" where
  "bigint_div a b = sgn a * sgn b * (\<bar>a\<bar> div \<bar>b\<bar>)"

definition bigint_rem :: "int \<Rightarrow> int \<Rightarrow> int" where
  "bigint_rem a b = sgn a * (\<bar>a\<bar> mod \<bar>b\<bar>)"

text \<open>
  \<^verbatim>\<open>BigInt(10 ** decimals)\<close>: the power is computed in double precision, where it is the
  exact power of ten up to \<open>10 ^ 22\<close>. Beyond that the double is not a power of ten and
  the divisor is not modelled.
\<close>

definition divisor_of :: "nat \<Rightarrow> int option" where
  "divisor_of decimals = (if decimals \<le> 22 then Some (10 ^ decimals) else None)"

text \<open>\<^verbatim>\<open>toString\<close> of a bigint: the decimal digits, after a minus sign for a negative one.\<close>

definition digit_char :: "nat \<Rightarrow> char" where
  "digit_char d = ''0123456789'' ! d"

fun digits :: "nat \<Rightarrow> string" where
  "digits n = (if n < 10 then [digit_char n] else digits (n div 10) @ [digit_char (n mod 10)])"

definition toString :: "int \<Rightarrow> string" where
  "toString i = (if i < 0 then CHR ''-'' # digits (nat (- i)) else digits (nat i))"

definition padStart :: "nat \<Rightarrow> char \<Rightarrow> string \<Rightarrow> string" where
  "padStart targetLength c s = replicate (targetLength - length s) c @ s"

text \<open>\<^verbatim>\<open>replace(/0+$/, '')\<close>: without the zeros at the end.\<close>

definition strip_trailing_zeros :: "string \<Rightarrow> string" where
  "strip_trailing_zeros s = rev (dropWhile (\<lambda>c. c = CHR ''0'') (rev s))"

definition formatCurrency :: "int \<Rightarrow> nat \<Rightarrow> string option" where
  "formatCurrency amount decimals =
     (case divisor_of decimals of
        None \<Rightarrow> None
      | Some divisor \<Rightarrow>
          let wholePart = bigint_div amount divisor;
              fractionalPart = bigint_rem amount divisor
          in if fractionalPart = 0 then Some (toString wholePart)
             else
               let fractionalStr = padStart decimals CHR ''0'' (toString fractionalPart);
                   trimmedFractional = strip_trailing_zeros fractionalStr
               in Some (if trimmedFractional \<noteq> []
                        then toString wholePart @ ''.'' @ trimmedFractional
                        else toString wholePart))"

text \<open>
  Reading a formatted amount back, as the round trip is stated: the whole part times
  \<open>10 ^ 18\<close>, plus the fractional digits padded with zeros on the right to 18 places.
  The whole part is what stands before the decimal point, the fractional digits are
  what stands after it.
\<close>

definition digit_value :: "char \<Rightarrow> nat" where
  "digit_value c = of_char c - 48"

definition number_of_digits :: "string \<Rightarrow> nat" where
  "number_of_digits s = foldl (\<lambda>acc c. 10 * acc + digit_value c) 0 s"

definition parse_currency :: "string \<Rightarrow> int" where
  "parse_currency s =
     (let whole = takeWhile (\<lambda>c. c \<noteq> CHR ''.'') s;
          fractional = drop 1 (dropWhile (\<lambda>c. c \<noteq> CHR ''.'') s)
      in int (number_of_digits whole) * 10 ^ 18
         + int (number_of_digits (fractional @ replicate (18 - length fractional) CHR ''0'')))"


section \<open>ChallengeSuccess: the second writer of the progress\<close>

text \<open>
  \<^verbatim>\<open>ChallengeSuccess\<close> (rendered by \<^verbatim>\<open>FileUpload\<close>, \<^verbatim>\<open>NFTMinter\<close>,
  \<^verbatim>\<open>EncryptedNFTMinter\<close> and the payment page, with the challenge numbers 2, 4, 5 and 1)
  saves the completion under the key of the hook, \<^verbatim>\<open>fil-workshop-progress\<close>, with the
  number of the challenge as the entry. Its transaction hashes go, as plain texts, under
  the keys \<^verbatim>\<open>challenge-<number>-tx\<close>.
\<close>

definition challenge_number_key :: "int \<Rightarrow> string" where
  "challenge_number_key challengeNumber = ''challenge-'' @ toString challengeNumber @ ''-tx''"

text \<open>The object \<^verbatim>\<open>{completedChallenges: [], lastUpdated: 0}\<close>: the other fields are absent.\<close>

definition empty_progress :: WorkshopProgress where
  "empty_progress =
     \<lparr>completedChallenges = [], lastUpdated = 0, version = None, participantId = None,
        sessionStarted = Undefined, timeSpent = Undefined\<rparr>"

text \<open>
  \<^verbatim>\<open>saveProgress(challengeNumber, transactionHash)\<close>: parse the stored progress or start
  from the empty one, push the number unless the list includes it, set \<^verbatim>\<open>lastUpdated\<close>,
  write the transaction hash, write the progress. Everything is inside one \<^verbatim>\<open>try\<close>:
  the first access that throws ends the function (the three flags tell which ones throw;
  without a window the first one does).
\<close>

definition saveProgress ::
  "int \<Rightarrow> string option \<Rightarrow> int \<Rightarrow> bool \<Rightarrow> bool \<Rightarrow> bool \<Rightarrow> browser \<Rightarrow> browser" where
  "saveProgress challengeNumber transactionHash now getItem_throws setItem_throws1 setItem_throws2 b =
     (if \<not> window_defined b \<or> getItem_throws then b
      else
        let existing = (case parsed_progress b of Some p \<Rightarrow> p | None \<Rightarrow> empty_progress);
            pushed =
              (if ChallengeNumber challengeNumber \<in> set (completedChallenges existing) then existing
               else existing\<lparr>completedChallenges :=
                              completedChallenges existing @ [ChallengeNumber challengeNumber]\<rparr>);
            saved = pushed\<lparr>lastUpdated := now\<rparr>
        in case (case transactionHash of
                   None \<Rightarrow> Some b
                 | Some h \<Rightarrow>
                     if h = [] then Some b
                     else if setItem_throws1 then None
                     else Some (b\<lparr>localStorage :=
                                    (localStorage b)(challenge_number_key challengeNumber
                                                       \<mapsto> StoredText h)\<rparr>)) of
             None \<Rightarrow> b
           | Some b1 \<Rightarrow>
               if setItem_throws2 then b1
               else b1\<lparr>localStorage :=
                          (localStorage b1)(PROGRESS_STORAGE_KEY \<mapsto> StoredProgress saved)\<rparr>)"

section \<open>The hook and the storage over time\<close>

text \<open>
  One instance of the hook in one browser. Besides the state of the reducer there is the
  progress that the callbacks of the last render captured. A page load evaluates the
  module again (the storage stays). A mount renders with the initial state, whose
  progress the callbacks capture, and its effect dispatches \<^verbatim>\<open>LOAD_COMPLETE\<close>; only the
  next render gives the callbacks the loaded progress. \<^verbatim>\<open>ChallengeSuccessEnhanced\<close> calls
  \<^verbatim>\<open>completeChallenge\<close> from an effect of its own first render, that is between the mount
  and the next render; a handler as in the usage example of the hook calls it after a
  render.
\<close>

record app =
  hook_state :: ChallengeVerificationState
  captured_progress :: WorkshopProgress
  app_browser :: browser

datatype operation =
  PageLoad int
| Mount int bool bool
| Render
| CompleteChallenge ChallengeType "string option" int int "thrown option" "thrown option"
| ResetProgress int int "string \<Rightarrow> bool"
| SaveProgress int "string option" int bool bool bool

fun apply_operation :: "operation \<Rightarrow> app \<Rightarrow> app" where
  "apply_operation (PageLoad loaded) a =
     a\<lparr>app_browser := (app_browser a)\<lparr>module_loaded := loaded\<rparr>\<rparr>"
| "apply_operation (Mount now t1 t2) a =
     a\<lparr>hook_state := mount now t1 t2 (app_browser a),
       captured_progress := progress (initial_state now)\<rparr>"
| "apply_operation Render a = a\<lparr>captured_progress := progress (hook_state a)\<rparr>"
| "apply_operation (CompleteChallenge c tx now1 now2 t1 t2) a =
     (let (rejection, state, b) =
            completeChallenge c tx now1 now2 t1 t2 (captured_progress a) (hook_state a, app_browser a)
      in a\<lparr>hook_state := state, app_browser := b\<rparr>)"
| "apply_operation (ResetProgress now1 now2 t) a =
     (let (state, b) = resetProgress now1 now2 t (hook_state a, app_browser a)
      in a\<lparr>hook_state := state, app_browser := b\<rparr>)"
| "apply_operation (SaveProgress n tx now t0 t1 t2) a =
     a\<lparr>app_browser := saveProgress n tx now t0 t1 t2 (app_browser a)\<rparr>"

text \<open>
  A first visit: nothing is stored yet. (Without a window, on the server, the storage
  is never touched.)
\<close>

definition first_visit :: "int \<Rightarrow> bool \<Rightarrow> int \<Rightarrow> app" where
  "first_visit loaded window now =
     \<lparr>hook_state = initial_state now, captured_progress = progress (initial_state now),
        app_browser = fresh_browser loaded window\<rparr>"

definition run_operations :: "operation list \<Rightarrow> app \<Rightarrow> app" where
  "run_operations ops a = fold apply_operation ops a"

text \<open>
  What every operation keeps: under the progress key there is nothing or a progress
  object, and no list of completed challenges, stored, in the state or captured, has an
  entry twice.
\<close>

definition stored_kept :: "browser \<Rightarrow> bool" where
  "stored_kept b =
     (case localStorage b PROGRESS_STORAGE_KEY of
        None \<Rightarrow> True
      | Some (StoredProgress p) \<Rightarrow> distinct (completedChallenges p)
      | Some _ \<Rightarrow> False)"

definition app_kept :: "app \<Rightarrow> bool" where
  "app_kept a =
     (distinct (completedChallenges (progress (hook_state a))) \<and>
      distinct (completedChallenges (captured_progress a)) \<and>
      stored_kept (app_browser a))"


section \<open>Lists\<close>

lemma dropWhile_all: "(\<forall>c \<in> set s. P c) \<Longrightarrow> dropWhile P s = []"
  by (induction s) auto

lemma takeWhile_all: "(\<forall>c \<in> set s. P c) \<Longrightarrow> takeWhile P s = s"
  by (induction s) auto

lemma takeWhile_until: "(\<forall>c \<in> set s. P c) \<Longrightarrow> \<not> P d \<Longrightarrow> takeWhile P (s @ d # r) = s"
  by (induction s) auto

lemma dropWhile_until: "(\<forall>c \<in> set s. P c) \<Longrightarrow> \<not> P d \<Longrightarrow> dropWhile P (s @ d # r) = d # r"
  by (induction s) auto

lemma takeWhile_same: "takeWhile (\<lambda>c. c = d) s = replicate (length (takeWhile (\<lambda>c. c = d) s)) d"
  by (induction s) auto

lemma dropWhile_hd: "dropWhile P s \<noteq> [] \<Longrightarrow> \<not> P (hd (dropWhile P s))"
  by (induction s) auto


section \<open>NFTContract.sol: minting\<close>

declare getAllTokensDetails_loop.simps [simp del]

lemma run_mints_append:
  "run_mints (xs @ ys) s = (case run_mints xs s of Inl e \<Rightarrow> Inl e | Inr s' \<Rightarrow> run_mints ys s')"
  by (induction xs arbitrary: s) (auto split: sum.splits)

lemma minted_deployed: "minted [] deployed"
  by (simp add: minted_def deployed_def)

lemma mint_step:
  assumes "minted calls s" and "sender \<noteq> 0" and "length calls < uint256_max"
  shows "\<exists>s'. mint sender cid s = Inr s' \<and> minted (calls @ [(sender, cid)]) s'
           \<and> (\<forall>k. k \<noteq> length calls + 1 \<longrightarrow> tokenURIs s' k = tokenURIs s k)"
  using assms
  by (auto simp: minted_def mint_def erc721_mint_def Let_def nth_append)

lemma run_mints_minted:
  assumes "\<forall>c \<in> set calls. fst c \<noteq> 0" and "length calls \<le> uint256_max"
  shows "\<exists>s. run_mints calls deployed = Inr s \<and> minted calls s"
  using assms
proof (induction calls rule: rev_induct)
  case Nil
  then show ?case by (simp add: minted_deployed)
next
  case (snoc c calls)
  then obtain s where s: "run_mints calls deployed = Inr s" "minted calls s"
    by auto
  obtain sender cid where c: "c = (sender, cid)" by (cases c)
  from snoc.prems c have "sender \<noteq> 0" "length calls < uint256_max" by auto
  from mint_step [OF s(2) this, of cid]
  obtain s' where "mint sender cid s = Inr s'" "minted (calls @ [(sender, cid)]) s'" by blast
  then show ?case using s c by (simp add: run_mints_append)
qed

lemma loop_fills:
  assumes "length arr = n" and "i \<le> n" and "n \<le> uint256_max"
  shows "getAllTokensDetails_loop s n i arr =
           Inr (take i arr @ map (\<lambda>j. tokenURI s (j + 1)) [i..<n])"
  using assms
proof (induction s n i arr rule: getAllTokensDetails_loop.induct)
  case (1 s totalSupply i arr)
  show ?case
  proof (cases "i < totalSupply")
    case True
    with 1 have a: "i \<noteq> uint256_max" "\<not> length arr \<le> i" by auto
    have "getAllTokensDetails_loop s totalSupply i arr =
            getAllTokensDetails_loop s totalSupply (i + 1) (arr[i := tokenURI s (i + 1)])"
      using True a by (subst getAllTokensDetails_loop.simps) simp
    also have "\<dots> = Inr (take (i + 1) (arr[i := tokenURI s (i + 1)]) @ map (\<lambda>j. tokenURI s (j + 1)) [i + 1..<totalSupply])"
      using 1 True a by (intro "1.IH") auto
    also have "take (i + 1) (arr[i := tokenURI s (i + 1)]) = take i arr @ [tokenURI s (i + 1)]"
      using a by (simp add: take_Suc_conv_app_nth)
    finally show ?thesis using True by (simp add: upt_conv_Cons)
  next
    case False
    with 1 show ?thesis by (subst getAllTokensDetails_loop.simps) simp
  qed
qed

lemma getAll_minted:
  assumes "minted calls s" and "length calls \<le> uint256_max"
  shows "getAllTokensDetails s = Inr (map snd calls)"
proof -
  have n: "tokenIdCounter s = length calls" using assms by (simp add: minted_def)
  have "map (\<lambda>j. tokenURI s (j + 1)) [0..<length calls] = map snd calls"
    using assms(1) by (intro nth_equalityI) (auto simp: minted_def tokenURI_def)
  then show ?thesis
    using assms n by (simp add: getAllTokensDetails_def getTotalSupply_def Let_def loop_fills)
qed

text \<open>
  Claim C3. On-chain token records map a token id to a content identifier string.
  After any sequence of \<open>n - 1\<close> calls to \<^verbatim>\<open>mint\<close> on the freshly deployed contract,
  by senders other than the zero address, the \<open>n\<close>-th call \<^verbatim>\<open>mint(cid)\<close> succeeds
  (for \<open>n\<close> below \<open>2 ^ 256\<close>) and: \<^verbatim>\<open>getTotalSupply()\<close> is \<open>n\<close>; token \<open>n\<close> belongs
  to the caller; \<^verbatim>\<open>tokenURI(n)\<close> is \<open>cid\<close>; \<^verbatim>\<open>tokenURI(k)\<close> is unchanged for every
  \<open>k < n\<close>; and \<^verbatim>\<open>getAllTokensDetails()\<close> returns the content identifiers of the calls,
  in the order of the token ids \<open>1..n\<close>.
\<close>

theorem mint_sequence:
  assumes "\<forall>c \<in> set calls. fst c \<noteq> 0" and "sender \<noteq> 0"
    and "length calls < uint256_max"
  shows "\<exists>s' s. run_mints calls deployed = Inr s' \<and> mint sender cid s' = Inr s \<and>
           getTotalSupply s = length calls + 1 \<and>
           ownerOf s (length calls + 1) = Inr sender \<and>
           tokenURI s (length calls + 1) = cid \<and>
           (\<forall>k < length calls + 1. tokenURI s k = tokenURI s' k) \<and>
           getAllTokensDetails s = Inr (map snd calls @ [cid])"
proof -
  from run_mints_minted assms obtain s' where s': "run_mints calls deployed = Inr s'" "minted calls s'"
    by (metis less_imp_le)
  from mint_step [OF s'(2) assms(2,3), of cid] obtain s where
    s: "mint sender cid s' = Inr s" "minted (calls @ [(sender, cid)]) s"
       "\<forall>k. k \<noteq> length calls + 1 \<longrightarrow> tokenURIs s k = tokenURIs s' k"
    by blast
  have "getAllTokensDetails s = Inr (map snd (calls @ [(sender, cid)]))"
    using s(2) assms(3) by (intro getAll_minted) auto
  moreover have "ownerOf s (length calls + 1) = Inr sender"
    using s(2) assms(2) by (simp add: minted_def ownerOf_def)
  moreover have "tokenURI s (length calls + 1) = cid" "getTotalSupply s = length calls + 1"
    using s(2) by (simp_all add: minted_def tokenURI_def getTotalSupply_def)
  ultimately show ?thesis using s' s by (auto simp: tokenURI_def)
qed

theorem mint_sequence_witness:
  "\<exists>s' s. run_mints [(1, ''bafy-a''), (2, ''bafy-b'')] deployed = Inr s' \<and> mint 7 ''bafy-c'' s' = Inr s \<and>
           getTotalSupply s = 3 \<and>
           ownerOf s 3 = Inr 7 \<and>
           tokenURI s 3 = ''bafy-c'' \<and>
           (\<forall>k < 3. tokenURI s k = tokenURI s' k) \<and>
           getAllTokensDetails s = Inr [''bafy-a'', ''bafy-b'', ''bafy-c'']"
  using mint_sequence [of "[(1, ''bafy-a''), (2, ''bafy-b'')]" 7 "''bafy-c''"]
  by (simp add: uint256_max_def numeral_3_eq_3)

section \<open>Flag validation\<close>

lemma trim_white_space: "(\<forall>c \<in> set s. is_white_space c) \<Longrightarrow> trim s = []"
  by (simp add: trim_def dropWhile_all)

lemma startsWith_iff: "startsWith s p \<longleftrightarrow> (\<exists>v. s = p @ v)"
proof
  assume "startsWith s p"
  then have "s = p @ drop (length p) s"
    by (metis append_take_drop_id startsWith_def)
  then show "\<exists>v. s = p @ v" ..
next
  assume "\<exists>v. s = p @ v"
  then show "startsWith s p" by (auto simp: startsWith_def)
qed

lemma includes_js_iff: "includes_js s p \<longleftrightarrow> (\<exists>u v. s = u @ p @ v)"
proof (induction s)
  case Nil
  then show ?case by auto
next
  case (Cons c cs)
  show ?case
  proof
    assume "includes_js (c # cs) p"
    then consider "startsWith (c # cs) p" | "includes_js cs p" by auto
    then show "\<exists>u v. c # cs = u @ p @ v"
    proof cases
      case 1
      then obtain v where "c # cs = [] @ p @ v" by (auto simp: startsWith_iff)
      then show ?thesis by blast
    next
      case 2
      with Cons obtain u v where "cs = u @ p @ v" by auto
      then have "c # cs = (c # u) @ p @ v" by simp
      then show ?thesis by blast
    qed
  next
    assume "\<exists>u v. c # cs = u @ p @ v"
    then obtain u v where uv: "c # cs = u @ p @ v" by auto
    show "includes_js (c # cs) p"
    proof (cases u)
      case Nil
      with uv have "startsWith (c # cs) p" by (auto simp: startsWith_iff)
      then show ?thesis by simp
    next
      case (Cons d ds)
      with uv have "cs = ds @ p @ v" by simp
      with Cons.IH have "includes_js cs p" by blast
      then show ?thesis by simp
    qed
  qed
qed

lemma is_digit_iff: "is_digit c \<longleftrightarrow> c \<in> set (js ''0123456789'')"
proof
  assume "is_digit c"
  then have "unat c = 48 \<or> unat c = 49 \<or> unat c = 50 \<or> unat c = 51 \<or> unat c = 52
      \<or> unat c = 53 \<or> unat c = 54 \<or> unat c = 55 \<or> unat c = 56 \<or> unat c = 57"
    unfolding is_digit_def by arith
  then have "unat c \<in> {48, 49, 50, 51, 52, 53, 54, 55, 56, 57}"
    by blast
  then have "of_nat (unat c) \<in> (of_nat ` {48, 49, 50, 51, 52, 53, 54, 55, 56, 57} :: 16 word set)"
    by (rule imageI)
  then show "c \<in> set (js ''0123456789'')"
    by (simp add: js_def)
next
  assume "c \<in> set (js ''0123456789'')"
  then show "is_digit c"
    by (auto simp: js_def is_digit_def)
qed

lemma matches_digits_iff:
  "matches_digits s \<longleftrightarrow> s \<noteq> [] \<and> (\<forall>c \<in> set s. c \<in> set (js ''0123456789''))"
  by (simp add: matches_digits_def list_all_iff is_digit_iff)

lemma valid_iff_validator:
  "valid (validateChallengeFlag c flag) \<longleftrightarrow>
     trim flag \<noteq> [] \<and> (\<exists>v. map_of challengeFlags c = Some v \<and> v (trim flag))"
proof (cases "flag = []")
  case True
  then show ?thesis by (simp add: validateChallengeFlag_def trim_def)
next
  case False
  then show ?thesis
    by (auto simp: validateChallengeFlag_def Let_def split: option.splits)
qed

lemma valid_TREASURY_MASTER:
  "valid (validateChallengeFlag TREASURY_MASTER flag) \<longleftrightarrow>
     take 2 (trim flag) = js ''0x'' \<and> length (trim flag) = 66"
proof -
  have "length (js ''0x'') = 2" by (simp add: js_def)
  then have "startsWith s (js ''0x'') \<longleftrightarrow> take 2 s = js ''0x''" for s
    by (simp only: startsWith_def)
  then show ?thesis
    by (auto simp: valid_iff_validator challengeFlags_def)
qed

lemma valid_STORAGE_SENTINEL:
  "valid (validateChallengeFlag STORAGE_SENTINEL flag) \<longleftrightarrow>
     take 2 (trim flag) = js ''Qm'' \<and> length (trim flag) = 46"
proof -
  have "length (js ''Qm'') = 2" by (simp add: js_def)
  then have "startsWith s (js ''Qm'') \<longleftrightarrow> take 2 s = js ''Qm''" for s
    by (simp only: startsWith_def)
  then show ?thesis
    by (auto simp: valid_iff_validator challengeFlags_def)
qed

lemma valid_DATA_GUARDIAN:
  "valid (validateChallengeFlag DATA_GUARDIAN flag) \<longleftrightarrow>
     take 10 (trim flag) = js ''encrypted_'' \<and> length (trim flag) > 20"
proof -
  have "length (js ''encrypted_'') = 10" by (simp add: js_def)
  then have "startsWith s (js ''encrypted_'') \<longleftrightarrow> take 10 s = js ''encrypted_''" for s
    by (simp only: startsWith_def)
  then show ?thesis
    by (auto simp: valid_iff_validator challengeFlags_def)
qed

lemma valid_NFT_ARCHITECT:
  "valid (validateChallengeFlag NFT_ARCHITECT flag) \<longleftrightarrow>
     trim flag \<noteq> [] \<and> (\<forall>c \<in> set (trim flag). c \<in> set (js ''0123456789''))"
  by (auto simp: valid_iff_validator challengeFlags_def matches_digits_iff)

lemma valid_DECRYPTION_EXPERT:
  "valid (validateChallengeFlag DECRYPTION_EXPERT flag) \<longleftrightarrow>
     (\<exists>u v. trim flag = u @ js ''decrypted_content'' @ v)"
proof -
  have ne: "js ''decrypted_content'' \<noteq> []" by (simp add: js_def)
  have "valid (validateChallengeFlag DECRYPTION_EXPERT flag) \<longleftrightarrow>
          trim flag \<noteq> [] \<and> includes_js (trim flag) (js ''decrypted_content'')"
    by (simp add: valid_iff_validator challengeFlags_def)
  also have "\<dots> \<longleftrightarrow> (\<exists>u v. trim flag = u @ js ''decrypted_content'' @ v)"
    unfolding includes_js_iff using ne by auto
  finally show ?thesis .
qed

lemma white_space_rejected:
  "(\<forall>c \<in> set flag. is_white_space c) \<Longrightarrow> \<not> valid (validateChallengeFlag c flag)"
  by (simp add: valid_iff_validator trim_white_space)

lemma valid_points:
  assumes "validateChallengeFlag c flag = Valid c' p"
  shows "c' = c \<and> (\<exists>ch. find (\<lambda>ch. challenge_id ch = c) WORKSHOP_CHALLENGES = Some ch
                       \<and> p = ChallengeDifficulty_value (difficulty ch) * 100)"
proof -
  have "\<exists>ch. find (\<lambda>ch. challenge_id ch = c) WORKSHOP_CHALLENGES = Some ch"
    by (cases c) (simp_all add: WORKSHOP_CHALLENGES_def)
  with assms show ?thesis
    by (auto simp: validateChallengeFlag_def Let_def split: if_splits option.splits)
qed

lemma validateChallengeFlag_trim:
  "validateChallengeFlag c flag =
     (if trim flag = [] then
        Invalid ''Flag cannot be empty''
          ''Enter the flag you received after completing the challenge''
      else
        case map_of challengeFlags c of
          None \<Rightarrow>
            Invalid (''No validation logic found for challenge: '' @ ChallengeType_value c)
              ''This challenge may not be implemented yet''
        | Some validator \<Rightarrow>
            if \<not> validator (trim flag) then Invalid ''Invalid flag format'' (hints c)
            else
              (case find (\<lambda>ch. challenge_id ch = c) WORKSHOP_CHALLENGES of
                 Some challenge \<Rightarrow>
                   Valid c (ChallengeDifficulty_value (difficulty challenge) * 100)
               | None \<Rightarrow> Valid c 100))"
proof (cases "flag = []")
  case True
  then show ?thesis by (simp add: validateChallengeFlag_def trim_def)
next
  case False
  then show ?thesis by (simp add: validateChallengeFlag_def Let_def)
qed

lemma validate_trimmed:
  assumes "trim flag = trim flag'"
  shows "validateChallengeFlag c flag = validateChallengeFlag c flag'"
  by (simp only: validateChallengeFlag_trim [of c flag] validateChallengeFlag_trim [of c flag'] assms)

text \<open>
  Claim C9. Flag validation is a function of the trimmed flag alone. With \<open>t\<close> the
  trimmed flag, \<^verbatim>\<open>validateChallengeFlag\<close> accepts
  a \<^verbatim>\<open>TREASURY_MASTER\<close> flag iff \<open>t\<close> starts with \<^verbatim>\<open>0x\<close> and has length 66,
  a \<^verbatim>\<open>STORAGE_SENTINEL\<close> flag iff \<open>t\<close> starts with \<^verbatim>\<open>Qm\<close> and has length 46,
  a \<^verbatim>\<open>DATA_GUARDIAN\<close> flag iff \<open>t\<close> starts with \<^verbatim>\<open>encrypted_\<close> and is longer than 20,
  an \<^verbatim>\<open>NFT_ARCHITECT\<close> flag iff \<open>t\<close> is not empty and consists of the digits 0 to 9 only,
  a \<^verbatim>\<open>DECRYPTION_EXPERT\<close> flag iff \<open>t\<close> contains \<^verbatim>\<open>decrypted_content\<close>.
  A flag that is empty or consists of white space only is rejected for every challenge,
  and an accepted flag yields the challenge itself and, as points, 100 times the
  difficulty that \<^verbatim>\<open>WORKSHOP_CHALLENGES\<close> gives for the challenge.
\<close>

theorem validateChallengeFlag_spec:
  "(valid (validateChallengeFlag TREASURY_MASTER flag) \<longleftrightarrow>
      take 2 (trim flag) = js ''0x'' \<and> length (trim flag) = 66) \<and>
   (valid (validateChallengeFlag STORAGE_SENTINEL flag) \<longleftrightarrow>
      take 2 (trim flag) = js ''Qm'' \<and> length (trim flag) = 46) \<and>
   (valid (validateChallengeFlag DATA_GUARDIAN flag) \<longleftrightarrow>
      take 10 (trim flag) = js ''encrypted_'' \<and> length (trim flag) > 20) \<and>
   (valid (validateChallengeFlag NFT_ARCHITECT flag) \<longleftrightarrow>
      trim flag \<noteq> [] \<and> (\<forall>c \<in> set (trim flag). c \<in> set (js ''0123456789''))) \<and>
   (valid (validateChallengeFlag DECRYPTION_EXPERT flag) \<longleftrightarrow>
      (\<exists>u v. trim flag = u @ js ''decrypted_content'' @ v)) \<and>
   ((\<forall>c \<in> set flag. is_white_space c) \<longrightarrow> \<not> valid (validateChallengeFlag challenge flag)) \<and>
   (validateChallengeFlag challenge flag = Valid challenge' points \<longrightarrow>
      challenge' = challenge \<and>
      (\<exists>ch. find (\<lambda>ch. challenge_id ch = challenge) WORKSHOP_CHALLENGES = Some ch
            \<and> points = ChallengeDifficulty_value (difficulty ch) * 100)) \<and>
   (trim flag = trim flag' \<longrightarrow>
      validateChallengeFlag challenge flag = validateChallengeFlag challenge flag')"
  using valid_TREASURY_MASTER valid_STORAGE_SENTINEL valid_DATA_GUARDIAN valid_NFT_ARCHITECT
    valid_DECRYPTION_EXPERT white_space_rejected valid_points validate_trimmed
  by blast

theorem validateChallengeFlag_spec_witness:
  "trim (js '' 42 '') = trim (js ''42'') \<and>
   list_all is_white_space (js ''  '') \<and>
   validateChallengeFlag NFT_ARCHITECT (js '' 42 '') = Valid NFT_ARCHITECT 300 \<and>
   valid (validateChallengeFlag NFT_ARCHITECT (js '' 42 '')) \<and>
   validateChallengeFlag NFT_ARCHITECT (js '' 42 '') = validateChallengeFlag NFT_ARCHITECT (js ''42'') \<and>
   (\<exists>ch. find (\<lambda>ch. challenge_id ch = NFT_ARCHITECT) WORKSHOP_CHALLENGES = Some ch
         \<and> (300::nat) = ChallengeDifficulty_value (difficulty ch) * 100) \<and>
   \<not> valid (validateChallengeFlag TREASURY_MASTER (js ''  ''))"
proof -
  have t: "trim (js '' 42 '') = trim (js ''42'')"
    by (simp add: trim_def js_def is_white_space_def)
  have w: "\<forall>c \<in> set (js ''  ''). is_white_space c"
    by (simp add: js_def is_white_space_def)
  have v: "validateChallengeFlag NFT_ARCHITECT (js '' 42 '') = Valid NFT_ARCHITECT 300"
    by (simp add: validateChallengeFlag_def trim_def js_def is_white_space_def challengeFlags_def
        matches_digits_def is_digit_def WORKSHOP_CHALLENGES_def)
  note a = validateChallengeFlag_spec [where flag = "js '' 42 ''" and challenge = NFT_ARCHITECT
      and challenge' = NFT_ARCHITECT and points = 300 and flag' = "js ''42''"]
  note b = validateChallengeFlag_spec [where flag = "js ''  ''" and challenge = TREASURY_MASTER]
  note c2 = conjunct2
  have r: "\<not> valid (validateChallengeFlag TREASURY_MASTER (js ''  ''))"
    using b [THEN c2, THEN c2, THEN c2, THEN c2, THEN c2, THEN conjunct1] w by (rule mp)
  have p: "NFT_ARCHITECT = NFT_ARCHITECT \<and>
      (\<exists>ch. find (\<lambda>ch. challenge_id ch = NFT_ARCHITECT) WORKSHOP_CHALLENGES = Some ch
         \<and> (300::nat) = ChallengeDifficulty_value (difficulty ch) * 100)"
    using a [THEN c2, THEN c2, THEN c2, THEN c2, THEN c2, THEN c2, THEN conjunct1] v by (rule mp)
  have d: "validateChallengeFlag NFT_ARCHITECT (js '' 42 '') =
      validateChallengeFlag NFT_ARCHITECT (js ''42'')"
    using a [THEN c2, THEN c2, THEN c2, THEN c2, THEN c2, THEN c2, THEN c2] t by (rule mp)
  have "valid (validateChallengeFlag NFT_ARCHITECT (js '' 42 ''))"
    by (simp only: v valid.simps)
  moreover have "list_all is_white_space (js ''  '')"
    using w by (simp only: list_all_iff)
  ultimately show ?thesis using t v r p d by blast
qed


section \<open>Progress record\<close>

lemma storage_set_cases:
  "storage_set key v t b =
     (if \<not> window_defined b then Inr b
      else if t = None then Inr (b\<lparr>localStorage := (localStorage b)(key \<mapsto> v)\<rparr>)
      else Inl (Error (''Failed to save progress: ''
                        @ (case the t of Error m \<Rightarrow> m | NonError \<Rightarrow> ''Unknown error''))))"
  by (cases t) (simp_all add: storage_set_def)

lemma transaction_key_neq: "transaction_key c \<noteq> PROGRESS_STORAGE_KEY"
  by (simp add: transaction_key_def PROGRESS_STORAGE_KEY_def)

lemma updatedProgress_member:
  "ChallengeId c \<in> set (completedChallenges (updatedProgress c n1 n2 p))"
  by (simp add: updatedProgress_def)

lemma updatedProgress_lastUpdated: "lastUpdated (updatedProgress c n1 n2 p) = n1"
  by (simp add: updatedProgress_def)

lemma updatedProgress_idem:
  "ChallengeId c \<in> set (completedChallenges p) \<Longrightarrow>
     completedChallenges (updatedProgress c n1 n2 p) = completedChallenges p"
  by (simp add: updatedProgress_def)

lemma updatedProgress_distinct:
  "distinct (completedChallenges p) \<Longrightarrow> distinct (completedChallenges (updatedProgress c n1 n2 p))"
  by (simp add: updatedProgress_def)

lemma completeChallenge_progress:
  "progress (fst (snd (completeChallenge c tx n1 n2 t1 t2 seen (s, b)))) =
     (if fst (completeChallenge c tx n1 n2 t1 t2 seen (s, b)) = None
      then updatedProgress c n1 n2 seen else progress s)"
  by (simp add: completeChallenge_def Let_def split: sum.splits option.splits)

lemma completeChallenge_rejects:
  "fst (completeChallenge c tx n1 n2 t1 t2 seen (s, b)) = None \<longleftrightarrow>
     \<not> window_defined b \<or> (t1 = None \<and> (tx = None \<or> tx = Some [] \<or> t2 = None))"
  by (auto simp: completeChallenge_def Let_def storage_set_cases split: sum.splits option.splits if_splits)

lemma completeChallenge_stored_progress:
  assumes "window_defined b" and "t1 = None"
  shows "localStorage (snd (snd (completeChallenge c tx n1 n2 t1 t2 seen (s, b))))
           PROGRESS_STORAGE_KEY =
           Some (StoredProgress (updatedProgress c n1 n2 seen))"
  using assms transaction_key_neq [of c]
  by (auto simp: completeChallenge_def Let_def storage_set_cases split: sum.splits option.splits)

lemma completeChallenge_stored_tx:
  assumes "window_defined b" and "t1 = None" and "t2 = None" and "h \<noteq> []"
  shows "localStorage (snd (snd (completeChallenge c (Some h) n1 n2 t1 t2 seen (s, b))))
           (transaction_key c) =
           Some (StoredString h)"
  using assms
  by (auto simp: completeChallenge_def Let_def storage_set_cases split: sum.splits)

text \<open>
  Claim C5. The progress record is persisted to local storage. In a browser (a window
  exists), \<^verbatim>\<open>completeChallenge(id, tx)\<close> whose write of the progress does not fail stores
  under the key \<^verbatim>\<open>fil-workshop-progress\<close> a progress object whose
  \<^verbatim>\<open>completedChallenges\<close> contains \<open>id\<close> and whose \<^verbatim>\<open>lastUpdated\<close> is the time of the
  completion; when a (non-empty) transaction hash is supplied and its write does not
  fail either, the hash is stored under \<^verbatim>\<open>challenge-<id>-tx\<close>. The call succeeds exactly
  when no write that it makes fails, and then the progress in memory is the stored one.
  When the call fails, the progress in memory is left as it was. All this holds
  whichever progress \<open>seen\<close> the callback captured.
\<close>

theorem completeChallenge_persists:
  assumes "completeChallenge c tx now1 now2 throws1 throws2 seen (s, b) = (rejection, s', b')"
  shows
    "(window_defined b \<and> throws1 = None \<longrightarrow>
        (\<exists>p. localStorage b' ''fil-workshop-progress'' = Some (StoredProgress p)
            \<and> ChallengeId c \<in> set (completedChallenges p) \<and> lastUpdated p = now1
            \<and> (rejection = None \<longrightarrow> progress s' = p))) \<and>
     (window_defined b \<and> throws1 = None \<and> throws2 = None \<and> tx = Some h \<and> h \<noteq> [] \<longrightarrow>
        localStorage b' (''challenge-'' @ ChallengeType_value c @ ''-tx'') = Some (StoredString h)) \<and>
     (rejection = None \<longleftrightarrow>
        \<not> window_defined b \<or> (throws1 = None \<and> (tx = None \<or> tx = Some [] \<or> throws2 = None))) \<and>
     (rejection \<noteq> None \<longrightarrow> progress s' = progress s)"
proof -
  let ?r = "completeChallenge c tx now1 now2 throws1 throws2 seen (s, b)"
  have r: "rejection = fst ?r" "s' = fst (snd ?r)" "b' = snd (snd ?r)"
    using assms by simp_all
  have 1: "window_defined b \<and> throws1 = None \<longrightarrow>
        (\<exists>p. localStorage b' ''fil-workshop-progress'' = Some (StoredProgress p)
            \<and> ChallengeId c \<in> set (completedChallenges p) \<and> lastUpdated p = now1
            \<and> (rejection = None \<longrightarrow> progress s' = p))"
  proof
    assume a: "window_defined b \<and> throws1 = None"
    have "localStorage b' PROGRESS_STORAGE_KEY =
            Some (StoredProgress (updatedProgress c now1 now2 seen))"
      unfolding r using a by (intro completeChallenge_stored_progress) simp_all
    moreover have "rejection = None \<longrightarrow> progress s' = updatedProgress c now1 now2 seen"
      unfolding r by (simp only: completeChallenge_progress) simp
    ultimately show "\<exists>p. localStorage b' ''fil-workshop-progress'' = Some (StoredProgress p)
            \<and> ChallengeId c \<in> set (completedChallenges p) \<and> lastUpdated p = now1
            \<and> (rejection = None \<longrightarrow> progress s' = p)"
      using updatedProgress_member [of c now1 now2 seen]
        updatedProgress_lastUpdated [of c now1 now2 seen]
      unfolding PROGRESS_STORAGE_KEY_def by blast
  qed
  have 2: "window_defined b \<and> throws1 = None \<and> throws2 = None \<and> tx = Some h \<and> h \<noteq> [] \<longrightarrow>
        localStorage b' (''challenge-'' @ ChallengeType_value c @ ''-tx'') = Some (StoredString h)"
    unfolding r using completeChallenge_stored_tx [of b throws1 throws2 h c now1 now2 seen s]
    by (auto simp only: transaction_key_def)
  have 3: "rejection = None \<longleftrightarrow>
        \<not> window_defined b \<or> (throws1 = None \<and> (tx = None \<or> tx = Some [] \<or> throws2 = None))"
    unfolding r by (rule completeChallenge_rejects)
  have 4: "rejection \<noteq> None \<longrightarrow> progress s' = progress s"
    unfolding r by (simp only: completeChallenge_progress) simp
  from 1 2 3 4 show ?thesis by blast
qed

theorem completeChallenge_persists_witness:
  "(\<exists>p. localStorage (snd (snd (completeChallenge NFT_ARCHITECT (Some ''0xabc'') 10 11 None None
           (default_progress 5) (initial_state 5, fresh_browser 0 True))))
         ''fil-workshop-progress'' = Some (StoredProgress p)
       \<and> ChallengeId NFT_ARCHITECT \<in> set (completedChallenges p) \<and> lastUpdated p = 10
       \<and> progress (fst (snd (completeChallenge NFT_ARCHITECT (Some ''0xabc'') 10 11 None None
           (default_progress 5) (initial_state 5, fresh_browser 0 True)))) = p) \<and>
   localStorage (snd (snd (completeChallenge NFT_ARCHITECT (Some ''0xabc'') 10 11 None None
           (default_progress 5) (initial_state 5, fresh_browser 0 True))))
     ''challenge-NFT_ARCHITECT-tx'' = Some (StoredString ''0xabc'') \<and>
   fst (completeChallenge NFT_ARCHITECT (Some ''0xabc'') 10 11 None None
          (default_progress 5) (initial_state 5, fresh_browser 0 True)) = None \<and>
   fst (completeChallenge NFT_ARCHITECT (Some ''0xabc'') 10 11 (Some (Error ''QuotaExceededError'')) None
          (default_progress 5) (initial_state 5, fresh_browser 0 True)) \<noteq> None \<and>
   progress (fst (snd (completeChallenge NFT_ARCHITECT (Some ''0xabc'') 10 11
          (Some (Error ''QuotaExceededError'')) None
          (default_progress 5) (initial_state 5, fresh_browser 0 True)))) =
     progress (initial_state 5)"
proof -
  let ?b = "fresh_browser 0 True"
  let ?ok = "completeChallenge NFT_ARCHITECT (Some ''0xabc'') 10 11 None None
               (default_progress 5) (initial_state 5, ?b)"
  let ?bad = "completeChallenge NFT_ARCHITECT (Some ''0xabc'') 10 11
                (Some (Error ''QuotaExceededError'')) None
                (default_progress 5) (initial_state 5, ?b)"
  have ok: "?ok = (fst ?ok, fst (snd ?ok), snd (snd ?ok))"
    and bad: "?bad = (fst ?bad, fst (snd ?bad), snd (snd ?bad))"
    by simp_all
  have w: "window_defined ?b"
    by (simp add: fresh_browser_def)
  note good = completeChallenge_persists [OF ok, of "''0xabc''"]
  note fail = completeChallenge_persists [OF bad, of "''0xabc''"]
  have 1: "fst ?ok = None"
    using good w by simp
  have 2: "\<exists>p. localStorage (snd (snd ?ok)) ''fil-workshop-progress'' = Some (StoredProgress p)
       \<and> ChallengeId NFT_ARCHITECT \<in> set (completedChallenges p) \<and> lastUpdated p = 10
       \<and> progress (fst (snd ?ok)) = p"
    using good 1 w by simp
  have 3: "localStorage (snd (snd ?ok)) ''challenge-NFT_ARCHITECT-tx'' = Some (StoredString ''0xabc'')"
    using good w by simp
  have 4: "fst ?bad \<noteq> None"
    using fail w by simp
  have 5: "progress (fst (snd ?bad)) = progress (initial_state 5)"
    using fail 4 by blast
  from 1 2 3 4 5 show ?thesis
    by blast
qed


section \<open>Completed challenges\<close>

lemma completedChallenges_json_progress:
  "completedChallenges (json_progress p) = completedChallenges p"
  by (simp add: json_progress_def)

lemma parsed_progress_distinct:
  assumes "stored_kept b" and "parsed_progress b = Some p"
  shows "distinct (completedChallenges p)"
  using assms
  by (auto simp: stored_kept_def parsed_progress_def completedChallenges_json_progress
      split: option.splits stored.splits)

lemma progressStorage_get_distinct:
  assumes "stored_kept b"
  shows "distinct (completedChallenges (progressStorage_get t b))"
proof (cases "parsed_progress b")
  case None
  then show ?thesis
    by (simp add: progressStorage_get_def default_progress_def)
next
  case (Some p)
  with assms have "distinct (completedChallenges p)"
    by (rule parsed_progress_distinct)
  with Some show ?thesis
    by (simp add: progressStorage_get_def default_progress_def)
qed

lemma stored_kept_remove:
  assumes "stored_kept b"
  shows "stored_kept (storage_remove key t b)"
  using assms by (simp add: stored_kept_def storage_remove_def)

lemma stored_kept_fold_remove:
  "stored_kept b \<Longrightarrow> stored_kept (fold (\<lambda>c. storage_remove (k c) (t c)) cs b)"
  by (induction cs arbitrary: b) (simp_all add: stored_kept_remove)

lemma stored_kept_set_progress:
  assumes "distinct (completedChallenges p)"
    and "storage_set PROGRESS_STORAGE_KEY (StoredProgress p) t b = Inr b'"
    and "stored_kept b"
  shows "stored_kept b'"
  using assms
  by (auto simp: stored_kept_def storage_set_cases split: if_splits)

lemma stored_kept_set_other:
  assumes "key \<noteq> PROGRESS_STORAGE_KEY"
    and "storage_set key v t b = Inr b'"
    and "stored_kept b"
  shows "stored_kept b'"
  using assms
  by (auto simp: stored_kept_def storage_set_cases split: if_splits)

lemma kept_mount:
  "stored_kept b \<Longrightarrow> distinct (completedChallenges (progress (mount now t1 t2 b)))"
  by (simp add: mount_def progressStorage_get_distinct)

lemma kept_initial: "distinct (completedChallenges (progress (initial_state now)))"
  by (simp add: initial_state_def default_progress_def)

lemma kept_completeChallenge:
  assumes "distinct (completedChallenges (progress s))"
    and "distinct (completedChallenges seen)"
    and "stored_kept b"
  shows "distinct (completedChallenges
           (progress (fst (snd (completeChallenge c tx n1 n2 t1 t2 seen (s, b))))))"
    and "stored_kept (snd (snd (completeChallenge c tx n1 n2 t1 t2 seen (s, b))))"
proof -
  let ?u = "updatedProgress c n1 n2 seen"
  have u: "distinct (completedChallenges ?u)"
    using assms(2) by (rule updatedProgress_distinct)
  show "distinct (completedChallenges
           (progress (fst (snd (completeChallenge c tx n1 n2 t1 t2 seen (s, b))))))"
    using assms(1) u by (simp only: completeChallenge_progress) simp
  have 1: "stored_kept b1"
    if "storage_set PROGRESS_STORAGE_KEY (StoredProgress ?u) t1 b = Inr b1" for b1
    using u that assms(3) by (rule stored_kept_set_progress)
  have 2: "stored_kept b2"
    if "stored_kept b1" "storage_set (transaction_key c) (StoredString h) t2 b1 = Inr b2"
    for b1 b2 h
    using transaction_key_neq that(2,1) by (rule stored_kept_set_other)
  show "stored_kept (snd (snd (completeChallenge c tx n1 n2 t1 t2 seen (s, b))))"
    using assms(3) 1 2
    by (auto simp: completeChallenge_def Let_def split: sum.splits option.splits)
qed

lemma kept_resetProgress:
  assumes "stored_kept b"
  shows "distinct (completedChallenges (progress (fst (resetProgress n1 n2 t (s, b)))))"
    and "stored_kept (snd (resetProgress n1 n2 t (s, b)))"
  using assms
  by (simp_all add: resetProgress_def Let_def stored_kept_remove stored_kept_fold_remove)

lemma challenge_number_key_neq: "challenge_number_key n \<noteq> PROGRESS_STORAGE_KEY"
  by (simp add: challenge_number_key_def PROGRESS_STORAGE_KEY_def)

lemma kept_saveProgress:
  assumes "stored_kept b"
  shows "stored_kept (saveProgress n tx now t0 t1 t2 b)"
proof -
  let ?existing = "case parsed_progress b of Some p \<Rightarrow> p | None \<Rightarrow> empty_progress"
  have "distinct (completedChallenges ?existing)"
    using parsed_progress_distinct [OF assms]
    by (auto simp: empty_progress_def split: option.splits)
  then show ?thesis
    using assms challenge_number_key_neq [of n]
    by (auto simp: saveProgress_def Let_def stored_kept_def split: option.splits)
qed

lemma kept_apply_operation:
  assumes "app_kept a"
  shows "app_kept (apply_operation op a)"
proof -
  from assms have s: "distinct (completedChallenges (progress (hook_state a)))"
    and c: "distinct (completedChallenges (captured_progress a))"
    and b: "stored_kept (app_browser a)"
    by (simp_all add: app_kept_def)
  show ?thesis
  proof (cases op)
    case (PageLoad loaded)
    with s c b show ?thesis
      by (simp add: app_kept_def stored_kept_def)
  next
    case (Mount now t1 t2)
    with c b show ?thesis
      by (simp add: app_kept_def kept_mount kept_initial)
  next
    case Render
    with s b show ?thesis
      by (simp add: app_kept_def)
  next
    case (CompleteChallenge ch tx n1 n2 t1 t2)
    with c kept_completeChallenge [OF s c b, of ch tx n1 n2 t1 t2] show ?thesis
      by (simp add: app_kept_def split_beta)
  next
    case (ResetProgress n1 n2 t)
    with c kept_resetProgress [OF b, of n1 n2 t "hook_state a"] show ?thesis
      by (simp add: app_kept_def split_beta)
  next
    case (SaveProgress n tx now t0 t1 t2)
    with s c kept_saveProgress [OF b, of n tx now t0 t1 t2] show ?thesis
      by (simp add: app_kept_def)
  qed
qed

lemma kept_first_visit: "app_kept (first_visit loaded window now)"
  by (simp add: app_kept_def first_visit_def kept_initial stored_kept_def fresh_browser_def)

text \<open>
  From a first visit on, whatever the user does and whichever storage accesses fail: the
  progress key holds nothing or a progress object, and no list of completed challenges
  has an entry twice.
\<close>

lemma progress_key_kept: "app_kept (run_operations ops (first_visit loaded window now))"
proof -
  have "app_kept a \<Longrightarrow> app_kept (fold apply_operation ops a)" for a
    by (induction ops arbitrary: a) (simp_all add: kept_apply_operation)
  then show ?thesis
    unfolding run_operations_def using kept_first_visit by blast
qed

text \<open>
  Claim C8. The list of completed challenges has no duplicates, completing a challenge
  that the list contains leaves the list unchanged, and the list has at most 5 entries.
  The entries do stay pairwise distinct (\<open>progress_key_kept\<close>). The other two parts do
  not hold of the code, although the list is typed \<^verbatim>\<open>ChallengeType[]\<close>, the storage
  utility is documented as type-safe and as migrating older data, and the pages show the
  length of the list as a count out of 5.

  First run: \<^verbatim>\<open>ChallengeSuccess\<close> has saved the challenges 2, 4 and 5 under the key of the
  hook; the hook mounts and reads them back unchecked; three challenges are completed
  through the hook, each from a handler after a render. The list has 6 entries.

  Second run: two challenges are completed through the hook; the page is loaded again
  and \<^verbatim>\<open>ChallengeSuccessEnhanced\<close> mounts, whose effect completes the first challenge
  again with the callback of its first render. That callback captured the initial, empty
  progress: the list, which contained the challenge, loses the other one, in memory and
  in the storage.
\<close>

theorem completedChallenges_exceed_total:
  "completedChallenges (progress (hook_state (run_operations
      [SaveProgress 2 None 100 False False False,
       SaveProgress 4 None 200 False False False,
       SaveProgress 5 None 300 False False False,
       PageLoad 400, Mount 410 False False, Render,
       CompleteChallenge TREASURY_MASTER None 500 501 None None, Render,
       CompleteChallenge STORAGE_SENTINEL None 600 601 None None, Render,
       CompleteChallenge DATA_GUARDIAN None 700 701 None None, Render]
      (first_visit 0 True 1)))) =
     [ChallengeNumber 2, ChallengeNumber 4, ChallengeNumber 5,
      ChallengeId TREASURY_MASTER, ChallengeId STORAGE_SENTINEL, ChallengeId DATA_GUARDIAN] \<and>
   TOTAL_CHALLENGES <
     length [ChallengeNumber 2, ChallengeNumber 4, ChallengeNumber 5,
             ChallengeId TREASURY_MASTER, ChallengeId STORAGE_SENTINEL, ChallengeId DATA_GUARDIAN] \<and>
   completedChallenges (progress (hook_state (run_operations
      [Mount 10 False False, Render,
       CompleteChallenge TREASURY_MASTER None 20 21 None None, Render,
       CompleteChallenge STORAGE_SENTINEL None 30 31 None None, Render,
       PageLoad 40, Mount 50 False False]
      (first_visit 0 True 1)))) =
     [ChallengeId TREASURY_MASTER, ChallengeId STORAGE_SENTINEL] \<and>
   completedChallenges (progress (hook_state (run_operations
      [Mount 10 False False, Render,
       CompleteChallenge TREASURY_MASTER None 20 21 None None, Render,
       CompleteChallenge STORAGE_SENTINEL None 30 31 None None, Render,
       PageLoad 40, Mount 50 False False,
       CompleteChallenge TREASURY_MASTER None 60 61 None None]
      (first_visit 0 True 1)))) =
     [ChallengeId TREASURY_MASTER] \<and>
   parsed_progress (app_browser (run_operations
      [Mount 10 False False, Render,
       CompleteChallenge TREASURY_MASTER None 20 21 None None, Render,
       CompleteChallenge STORAGE_SENTINEL None 30 31 None None, Render,
       PageLoad 40, Mount 50 False False,
       CompleteChallenge TREASURY_MASTER None 60 61 None None]
      (first_visit 0 True 1))) =
     Some \<lparr>completedChallenges = [ChallengeId TREASURY_MASTER], lastUpdated = 60,
            version = Some 1, participantId = None, sessionStarted = Number 50,
            timeSpent = Number 11\<rparr>"
  by (simp add: run_operations_def first_visit_def fresh_browser_def initial_state_def mount_def
      completeChallenge_def Let_def storage_set_def updatedProgress_def progressStorage_get_def
      parsed_progress_def json_progress_def attemptsStorage_get_def default_progress_def
      saveProgress_def empty_progress_def js_plus_def js_minus_def TOTAL_CHALLENGES_def
      PROGRESS_VERSION_def PROGRESS_STORAGE_KEY_def challenge_number_key_def)


section \<open>File selection\<close>

text \<open>
  Claim C1. Selecting a file over the size limit shows a rejection message. For every
  file of more than \<open>100 * 1024 * 1024\<close> bytes, \<^verbatim>\<open>handleFileSelect\<close> of \<^verbatim>\<open>FileUpload\<close> and
  of \<^verbatim>\<open>EncryptedNFTMinter\<close> shows the message and leaves the state, and the selected file
  with it, as it was; for every file of at most that size it makes the file the
  selected one and shows nothing.
\<close>

theorem handleFileSelect_size_limit:
  "(file_size file > 100 * 1024 * 1024 \<longrightarrow>
      FileUpload_handleFileSelect (Some (file # others)) s =
        (s, [''File size must be less than 100MB'']) \<and>
      EncryptedNFTMinter_handleFileSelect (Some (file # others)) m =
        (m, [''File size must be less than 100MB''])) \<and>
   (file_size file \<le> 100 * 1024 * 1024 \<longrightarrow>
      FileUpload_state.selectedFile (fst (FileUpload_handleFileSelect (Some (file # others)) s))
        = Some file \<and>
      snd (FileUpload_handleFileSelect (Some (file # others)) s) = [] \<and>
      EncryptedNFTMinter_state.selectedFile
        (fst (EncryptedNFTMinter_handleFileSelect (Some (file # others)) m)) = Some file \<and>
      snd (EncryptedNFTMinter_handleFileSelect (Some (file # others)) m) = [])"
  by (simp add: FileUpload_handleFileSelect_def EncryptedNFTMinter_handleFileSelect_def)

theorem handleFileSelect_size_limit_witness:
  "FileUpload_handleFileSelect
     (Some [\<lparr>file_name = ''big.bin'', file_size = 104857601, file_type = ''''\<rparr>])
     \<lparr>FileUpload_state.selectedFile = None, dragActive = False\<rparr> =
     (\<lparr>FileUpload_state.selectedFile = None, dragActive = False\<rparr>,
      [''File size must be less than 100MB'']) \<and>
   EncryptedNFTMinter_handleFileSelect
     (Some [\<lparr>file_name = ''big.bin'', file_size = 104857601, file_type = ''''\<rparr>])
     EncryptedNFTMinter_initial =
     (EncryptedNFTMinter_initial, [''File size must be less than 100MB'']) \<and>
   FileUpload_state.selectedFile (fst (FileUpload_handleFileSelect
     (Some [\<lparr>file_name = ''ok.bin'', file_size = 104857600, file_type = ''''\<rparr>])
     \<lparr>FileUpload_state.selectedFile = None, dragActive = False\<rparr>)) =
     Some \<lparr>file_name = ''ok.bin'', file_size = 104857600, file_type = ''''\<rparr> \<and>
   EncryptedNFTMinter_state.selectedFile (fst (EncryptedNFTMinter_handleFileSelect
     (Some [\<lparr>file_name = ''ok.bin'', file_size = 104857600, file_type = ''''\<rparr>])
     EncryptedNFTMinter_initial)) =
     Some \<lparr>file_name = ''ok.bin'', file_size = 104857600, file_type = ''''\<rparr>"
  using
    handleFileSelect_size_limit
      [of "\<lparr>file_name = ''big.bin'', file_size = 104857601, file_type = ''''\<rparr>" "[]"
          "\<lparr>FileUpload_state.selectedFile = None, dragActive = False\<rparr>"
          EncryptedNFTMinter_initial]
    handleFileSelect_size_limit
      [of "\<lparr>file_name = ''ok.bin'', file_size = 104857600, file_type = ''''\<rparr>" "[]"
          "\<lparr>FileUpload_state.selectedFile = None, dragActive = False\<rparr>"
          EncryptedNFTMinter_initial]
  by simp

section \<open>Minting\<close>

text \<open>
  Claim C4. \<^verbatim>\<open>mint\<close> takes a content identifier, \<^verbatim>\<open>mintPrivate\<close> a content identifier
  and a list of authorized addresses; \<^verbatim>\<open>NFTMinter\<close> calls \<^verbatim>\<open>mint\<close> with the piece CID
  alone. The claim that \<^verbatim>\<open>mintPrivate\<close> is called only when the user selected private
  access does not hold of the code: with the access type left at (or set to) public,
  \<^verbatim>\<open>handleEncryptUploadAndMint\<close> still calls \<^verbatim>\<open>mintPrivate\<close>, with the piece CID and the
  address list \<^verbatim>\<open>[""]\<close>.
\<close>

theorem handleEncryptUploadAndMint_public_mintPrivate:
  "snd (handleUploadAndMint (Some ''0xA11ce'') (Inr (Some ''bafk-piece'')) (Inr ())
          \<lparr>NFTMinter_state.selectedFile =
              Some \<lparr>file_name = ''a.txt'', file_size = 12, file_type = ''text/plain''\<rparr>,
            dragActive = False, mintedTokenId = False, pieceCid = None\<rparr>) =
     [\<lparr>contractName = ''NFTContract'', functionName = ''mint'',
        args = [StringArg ''bafk-piece'']\<rparr>] \<and>
   mintType (setMintType Public (fst (EncryptedNFTMinter_handleFileSelect
       (Some [\<lparr>file_name = ''a.txt'', file_size = 12, file_type = ''text/plain''\<rparr>])
       EncryptedNFTMinter_initial))) = Public \<and>
   snd (handleEncryptUploadAndMint (Some ''0xA11ce'') (Inr ''bafk-piece'') (Inr ())
          (setMintType Public (fst (EncryptedNFTMinter_handleFileSelect
             (Some [\<lparr>file_name = ''a.txt'', file_size = 12, file_type = ''text/plain''\<rparr>])
             EncryptedNFTMinter_initial)))) =
     [\<lparr>contractName = ''LitEncryptedNFT'', functionName = ''mintPrivate'',
        args = [StringArg ''bafk-piece'', StringListArg [[]]]\<rparr>]"
  by (simp add: handleUploadAndMint_def handleEncryptUploadAndMint_def setMintType_def
      EncryptedNFTMinter_handleFileSelect_def EncryptedNFTMinter_initial_def)


section \<open>Dataset enrichment\<close>

lemma datasetDetails_truncate:
  "EnhancedDataSetInfo.truncate (datasetDetails env urls ps d) = d"
  by (simp add: datasetDetails_def Let_def EnhancedDataSetInfo.defs split: sum.splits)

lemma datasetDetails_id:
  "pdpVerifierDataSetId (datasetDetails env urls ps d) = pdpVerifierDataSetId d"
  by (simp add: datasetDetails_def Let_def EnhancedDataSetInfo.defs split: sum.splits)

lemma datasetDetails_serviceURL:
  "serviceURL (datasetDetails env urls ps d) = urls (providerId d)"
  by (simp add: datasetDetails_def Let_def EnhancedDataSetInfo.defs DataSet.defs split: sum.splits)

lemma datasetDetails_provider:
  "provider (datasetDetails env urls ps d) = find (\<lambda>p. provider_id p = providerId d) ps"
  by (simp add: datasetDetails_def Let_def EnhancedDataSetInfo.defs DataSet.defs split: sum.splits)

lemma datasetDetails_data:
  "data (datasetDetails env urls ps d) =
     (case pdp_getDataSet env (case urls (providerId d) of None \<Rightarrow> [] | Some u \<Rightarrow> u)
             (pdpVerifierDataSetId d) of
        Inl e \<Rightarrow> None | Inr v \<Rightarrow> Some v)"
  by (simp add: datasetDetails_def Let_def EnhancedDataSetInfo.defs DataSet.defs split: sum.splits)

lemma extend_truncate:
  fixes e :: "('a, 'p, 'd) DataSet"
  shows "EnhancedDataSetInfo.extend (EnhancedDataSetInfo.truncate e)
           (DataSet.fields (provider e) (serviceURL e) (data e)) = e"
  by (simp add: EnhancedDataSetInfo.defs DataSet.defs)

lemma find_map_key:
  "find (\<lambda>r. k' r = v) (map f xs) = map_option f (find (\<lambda>x. k' (f x) = v) xs)"
  by (induction xs) simp_all

lemma find_same_key_Some:
  assumes "x \<in> set xs"
  shows "\<exists>y \<in> set xs. find (\<lambda>y. k y = k x) xs = Some y"
  using assms by (induction xs) auto

lemma find_distinct_key:
  assumes "distinct (map k xs)" and "x \<in> set xs"
  shows "find (\<lambda>y. k y = k x) xs = Some x"
  using assms by (induction xs) (auto simp: rev_image_eqI)

lemma filteredProviders_set:
  assumes "p \<in> set (filteredProviders (map (fetch_provider env addresses) ids))"
  shows "\<exists>pid \<in> set ids. getProviderInfo env pid = Inr p"
proof -
  from assms obtain pid where "pid \<in> set ids" "fetch_provider env addresses pid = Some p"
    by (auto simp: filteredProviders_def)
  then show ?thesis
    by (auto simp: fetch_provider_def split: option.splits if_splits sum.splits)
qed

lemma fetch_ids_and_datasets_Inr:
  "fetch_ids_and_datasets env = Inr (ids, ds) \<longleftrightarrow>
     getApprovedProviderIds env = Inr ids \<and> getClientDataSetsWithDetails env = Inr ds"
  by (auto simp: fetch_ids_and_datasets_def split: sum.splits)

text \<open>What the query function resolves with, for the fetched provider ids and datasets.\<close>

lemma queryFn_Inr:
  "queryFn signer address env = Inr r \<longleftrightarrow>
     signer \<noteq> None \<and> address \<noteq> None \<and> address \<noteq> Some [] \<and>
     Synapse_create env = None \<and> WarmStorageService_create env = None \<and>
     (\<exists>ids ds. getApprovedProviderIds env = Inr ids \<and> getClientDataSetsWithDetails env = Inr ds \<and>
        r = enriched env ids ds)"
proof (cases "fetch_ids_and_datasets env")
  case (Inl e)
  then have "\<not> (\<exists>ids ds. getApprovedProviderIds env = Inr ids \<and>
                 getClientDataSetsWithDetails env = Inr ds)"
    by (auto simp: fetch_ids_and_datasets_def split: sum.splits)
  with Inl show ?thesis
    by (auto simp: queryFn_def split: option.splits)
next
  case (Inr both)
  obtain ids ds where both: "both = (ids, ds)" by (cases both)
  with Inr have "getApprovedProviderIds env = Inr ids" "getClientDataSetsWithDetails env = Inr ds"
    by (simp_all add: fetch_ids_and_datasets_Inr)
  with Inr both show ?thesis
    by (auto simp: queryFn_def Let_def enriched_def split: option.splits)
qed

lemma enriched_length: "length (enriched env ids ds) = length ds"
  by (simp add: enriched_def Let_def)

lemma enriched_entries:
  assumes "x \<in> set (enriched env ids ds)"
  shows "\<exists>e d. x = Some e \<and> d \<in> set ds \<and> EnhancedDataSetInfo.truncate e = d \<and>
           (data e = None \<longleftrightarrow>
              isl (pdp_getDataSet env (case serviceURL e of None \<Rightarrow> [] | Some u \<Rightarrow> u)
                     (pdpVerifierDataSetId d))) \<and>
           (\<forall>p. provider e = Some p \<longrightarrow>
              provider_id p = providerId d \<and> (\<exists>pid \<in> set ids. getProviderInfo env pid = Inr p))"
proof -
  define ps where "ps = filteredProviders (map (fetch_provider env (providerIdToAddressMap ds)) ids)"
  define urls where "urls = providerIdToServiceUrlMap ps"
  from assms obtain d0 where d0: "d0 \<in> set ds"
    and x: "x = find (\<lambda>r. pdpVerifierDataSetId r = pdpVerifierDataSetId d0)
                  (map (datasetDetails env urls ps) ds)"
    by (auto simp: enriched_def Let_def ps_def urls_def)
  have "x = map_option (datasetDetails env urls ps)
              (find (\<lambda>d. pdpVerifierDataSetId d = pdpVerifierDataSetId d0) ds)"
    unfolding x by (simp add: find_map_key datasetDetails_id)
  moreover obtain d where d: "d \<in> set ds"
    "find (\<lambda>d. pdpVerifierDataSetId d = pdpVerifierDataSetId d0) ds = Some d"
    using find_same_key_Some [OF d0, of pdpVerifierDataSetId] by blast
  ultimately have e: "x = Some (datasetDetails env urls ps d)" by simp
  let ?e = "datasetDetails env urls ps d"
  have D: "data ?e = None \<longleftrightarrow>
          isl (pdp_getDataSet env (case serviceURL ?e of None \<Rightarrow> [] | Some u \<Rightarrow> u)
                 (pdpVerifierDataSetId d))"
    by (simp add: datasetDetails_data datasetDetails_serviceURL split: sum.splits)
  have P: "provider_id p = providerId d \<and> (\<exists>pid \<in> set ids. getProviderInfo env pid = Inr p)"
    if "provider ?e = Some p" for p
  proof -
    from that have f: "find (\<lambda>p. provider_id p = providerId d) ps = Some p"
      by (simp add: datasetDetails_provider)
    then have "provider_id p = providerId d" "p \<in> set ps"
      by (auto simp: find_Some_iff)
    then show ?thesis
      using filteredProviders_set [of p env "providerIdToAddressMap ds" ids]
      by (simp add: ps_def)
  qed
  show ?thesis
  proof (rule exI [of _ ?e], rule exI [of _ d], intro conjI allI impI)
    show "x = Some ?e" by (rule e)
    show "d \<in> set ds" by (rule d(1))
    show "EnhancedDataSetInfo.truncate ?e = d" by (rule datasetDetails_truncate)
    show "data ?e = None \<longleftrightarrow>
          isl (pdp_getDataSet env (case serviceURL ?e of None \<Rightarrow> [] | Some u \<Rightarrow> u)
                 (pdpVerifierDataSetId d))" by (rule D)
    show "provider_id p = providerId d" if "provider ?e = Some p" for p
      using P [OF that] by simp
    show "\<exists>pid \<in> set ids. getProviderInfo env pid = Inr p" if "provider ?e = Some p" for p
      using P [OF that] by simp
  qed
qed

lemma queryFn_Inl:
  "(signer = None \<longrightarrow> queryFn signer address env = Inl (Error ''Signer not found'')) \<and>
   (signer \<noteq> None \<and> (address = None \<or> address = Some []) \<longrightarrow>
      queryFn signer address env = Inl (Error ''Address not found'')) \<and>
   (signer \<noteq> None \<and> address \<noteq> None \<and> address \<noteq> Some [] \<and>
    Synapse_create env = Some e \<longrightarrow> queryFn signer address env = Inl e) \<and>
   (signer \<noteq> None \<and> address \<noteq> None \<and> address \<noteq> Some [] \<and>
    Synapse_create env = None \<and> WarmStorageService_create env = Some e \<longrightarrow>
      queryFn signer address env = Inl e) \<and>
   (signer \<noteq> None \<and> address \<noteq> None \<and> address \<noteq> Some [] \<and>
    Synapse_create env = None \<and> WarmStorageService_create env = None \<and>
    getApprovedProviderIds env = Inl e \<and> getClientDataSetsWithDetails env = Inr ds \<longrightarrow>
      queryFn signer address env = Inl e) \<and>
   (signer \<noteq> None \<and> address \<noteq> None \<and> address \<noteq> Some [] \<and>
    Synapse_create env = None \<and> WarmStorageService_create env = None \<and>
    getApprovedProviderIds env = Inr ids \<and> getClientDataSetsWithDetails env = Inl e \<longrightarrow>
      queryFn signer address env = Inl e) \<and>
   (signer \<noteq> None \<and> address \<noteq> None \<and> address \<noteq> Some [] \<and>
    Synapse_create env = None \<and> WarmStorageService_create env = None \<and>
    getApprovedProviderIds env = Inl e1 \<and> getClientDataSetsWithDetails env = Inl e2 \<longrightarrow>
      queryFn signer address env = Inl (if providerIds_rejects_first env then e1 else e2))"
  by (auto simp: queryFn_def fetch_ids_and_datasets_def)

text \<open>
  Claim C2, as amended. A failure before the fetches of the providers and of the dataset
  details is surfaced: without a signer the run rejects with \<^verbatim>\<open>Signer not found\<close>,
  without an address with \<^verbatim>\<open>Address not found\<close>, and when \<^verbatim>\<open>Synapse.create\<close>,
  \<^verbatim>\<open>WarmStorageService.create\<close>, \<^verbatim>\<open>getApprovedProviderIds\<close> or
  \<^verbatim>\<open>getClientDataSetsWithDetails\<close> rejects, the run rejects with that very error (of
  the two calls made together, with the error of the one that rejects first). The run
  resolves exactly when none of these fails. A failing fetch of a provider or of the
  details of a dataset is caught: the run still resolves, with one entry per fetched
  dataset; each entry is one of the datasets with its fields unchanged, it has no
  \<^verbatim>\<open>data\<close> exactly when fetching its details failed, and the provider it carries was
  fetched successfully.
\<close>

theorem queryFn_failures:
  "(signer = None \<longrightarrow> queryFn signer address env = Inl (Error ''Signer not found'')) \<and>
   (signer \<noteq> None \<and> (address = None \<or> address = Some []) \<longrightarrow>
      queryFn signer address env = Inl (Error ''Address not found'')) \<and>
   (signer \<noteq> None \<and> address \<noteq> None \<and> address \<noteq> Some [] \<and>
    Synapse_create env = Some e \<longrightarrow> queryFn signer address env = Inl e) \<and>
   (signer \<noteq> None \<and> address \<noteq> None \<and> address \<noteq> Some [] \<and>
    Synapse_create env = None \<and> WarmStorageService_create env = Some e \<longrightarrow>
      queryFn signer address env = Inl e) \<and>
   (signer \<noteq> None \<and> address \<noteq> None \<and> address \<noteq> Some [] \<and>
    Synapse_create env = None \<and> WarmStorageService_create env = None \<and>
    getApprovedProviderIds env = Inl e \<and> getClientDataSetsWithDetails env = Inr ds' \<longrightarrow>
      queryFn signer address env = Inl e) \<and>
   (signer \<noteq> None \<and> address \<noteq> None \<and> address \<noteq> Some [] \<and>
    Synapse_create env = None \<and> WarmStorageService_create env = None \<and>
    getApprovedProviderIds env = Inr ids' \<and> getClientDataSetsWithDetails env = Inl e \<longrightarrow>
      queryFn signer address env = Inl e) \<and>
   (signer \<noteq> None \<and> address \<noteq> None \<and> address \<noteq> Some [] \<and>
    Synapse_create env = None \<and> WarmStorageService_create env = None \<and>
    getApprovedProviderIds env = Inl e1 \<and> getClientDataSetsWithDetails env = Inl e2 \<longrightarrow>
      queryFn signer address env = Inl (if providerIds_rejects_first env then e1 else e2)) \<and>
   ((\<exists>r. queryFn signer address env = Inr r) \<longleftrightarrow>
      signer \<noteq> None \<and> address \<noteq> None \<and> address \<noteq> Some [] \<and>
      Synapse_create env = None \<and> WarmStorageService_create env = None \<and>
      (\<exists>ids. getApprovedProviderIds env = Inr ids) \<and>
      (\<exists>ds. getClientDataSetsWithDetails env = Inr ds)) \<and>
   (queryFn signer address env = Inr r \<and> getApprovedProviderIds env = Inr ids \<and>
    getClientDataSetsWithDetails env = Inr ds \<longrightarrow>
      length r = length ds \<and>
      (\<forall>x \<in> set r. \<exists>e d. x = Some e \<and> d \<in> set ds \<and> EnhancedDataSetInfo.truncate e = d \<and>
         (data e = None \<longleftrightarrow>
            isl (pdp_getDataSet env (case serviceURL e of None \<Rightarrow> [] | Some u \<Rightarrow> u)
                   (pdpVerifierDataSetId d))) \<and>
         (\<forall>p. provider e = Some p \<longrightarrow>
            provider_id p = providerId d \<and> (\<exists>pid \<in> set ids. getProviderInfo env pid = Inr p))))"
proof -
  note 0 = queryFn_Inl [of signer address env e ds' ids' e1 e2]
  have 1: "(\<exists>r. queryFn signer address env = Inr r) \<longleftrightarrow>
      signer \<noteq> None \<and> address \<noteq> None \<and> address \<noteq> Some [] \<and>
      Synapse_create env = None \<and> WarmStorageService_create env = None \<and>
      (\<exists>ids. getApprovedProviderIds env = Inr ids) \<and>
      (\<exists>ds. getClientDataSetsWithDetails env = Inr ds)"
    unfolding queryFn_Inr by blast
  have 2: "queryFn signer address env = Inr r \<and> getApprovedProviderIds env = Inr ids \<and>
    getClientDataSetsWithDetails env = Inr ds \<longrightarrow>
      length r = length ds \<and>
      (\<forall>x \<in> set r. \<exists>e d. x = Some e \<and> d \<in> set ds \<and> EnhancedDataSetInfo.truncate e = d \<and>
         (data e = None \<longleftrightarrow>
            isl (pdp_getDataSet env (case serviceURL e of None \<Rightarrow> [] | Some u \<Rightarrow> u)
                   (pdpVerifierDataSetId d))) \<and>
         (\<forall>p. provider e = Some p \<longrightarrow>
            provider_id p = providerId d \<and> (\<exists>pid \<in> set ids. getProviderInfo env pid = Inr p)))"
  proof
    assume a: "queryFn signer address env = Inr r \<and> getApprovedProviderIds env = Inr ids \<and>
      getClientDataSetsWithDetails env = Inr ds"
    then have r: "r = enriched env ids ds"
      by (auto simp: queryFn_Inr)
    show "length r = length ds \<and>
      (\<forall>x \<in> set r. \<exists>e d. x = Some e \<and> d \<in> set ds \<and> EnhancedDataSetInfo.truncate e = d \<and>
         (data e = None \<longleftrightarrow>
            isl (pdp_getDataSet env (case serviceURL e of None \<Rightarrow> [] | Some u \<Rightarrow> u)
                   (pdpVerifierDataSetId d))) \<and>
         (\<forall>p. provider e = Some p \<longrightarrow>
            provider_id p = providerId d \<and> (\<exists>pid \<in> set ids. getProviderInfo env pid = Inr p)))"
      unfolding r using enriched_length [of env ids ds] enriched_entries [of _ env ids ds]
      by blast
  qed
  show ?thesis
    by (intro conjI 0 [THEN conjunct1]
        0 [THEN conjunct2, THEN conjunct1]
        0 [THEN conjunct2, THEN conjunct2, THEN conjunct1]
        0 [THEN conjunct2, THEN conjunct2, THEN conjunct2, THEN conjunct1]
        0 [THEN conjunct2, THEN conjunct2, THEN conjunct2, THEN conjunct2, THEN conjunct1]
        0 [THEN conjunct2, THEN conjunct2, THEN conjunct2, THEN conjunct2, THEN conjunct2,
           THEN conjunct1]
        0 [THEN conjunct2, THEN conjunct2, THEN conjunct2, THEN conjunct2, THEN conjunct2,
           THEN conjunct2]
        1 2)
qed

text \<open>
  Three runs show it: without a signer; with the fetch of the datasets failing; and with
  the fetch of the provider and of the dataset details failing, where the run resolves
  and the one dataset comes back without its data.
\<close>

theorem queryFn_failures_witness:
  "queryFn (None :: unit option) (Some ''0xme'') failing_datasets = Inl (Error ''Signer not found'') \<and>
   getClientDataSetsWithDetails failing_datasets = Inl (Error ''rpc unreachable'') \<and>
   queryFn (Some ()) (Some ''0xme'') failing_datasets = Inl (Error ''rpc unreachable'') \<and>
   getProviderInfo failing_fetches 1 = Inl (Error ''provider unavailable'') \<and>
   isl (pdp_getDataSet failing_fetches [] 7) \<and>
   (\<exists>r. queryFn (Some ()) (Some ''0xme'') failing_fetches = Inr r \<and> length r = 1 \<and>
      (\<exists>e. r = [Some e] \<and> data e = None \<and> provider e = None \<and>
         EnhancedDataSetInfo.truncate e =
           \<lparr>providerId = 1, payee = ''0xP'', pdpVerifierDataSetId = 7, other_fields = ()\<rparr>))"
proof -
  let ?d = "\<lparr>providerId = 1, payee = ''0xP'', pdpVerifierDataSetId = 7, other_fields = ()\<rparr>"
  have s: "Some () \<noteq> None" and a: "Some ''0xme'' \<noteq> None" "Some ''0xme'' \<noteq> Some []"
    by simp_all
  have fd: "Synapse_create failing_datasets = None"
    "WarmStorageService_create failing_datasets = None"
    "getApprovedProviderIds failing_datasets = Inr [1]"
    "getClientDataSetsWithDetails failing_datasets = Inl (Error ''rpc unreachable'')"
    by (simp_all add: failing_datasets_def)
  have ff: "Synapse_create failing_fetches = None"
    "WarmStorageService_create failing_fetches = None"
    "getApprovedProviderIds failing_fetches = Inr [1]"
    "getClientDataSetsWithDetails failing_fetches = Inr [?d]"
    "getProviderInfo failing_fetches 1 = Inl (Error ''provider unavailable'')"
    "\<And>u. pdp_getDataSet failing_fetches u 7 = Inl (Error ''fetch failed'')"
    "\<And>pid. getProviderInfo failing_fetches pid = Inl (Error ''provider unavailable'')"
    by (simp_all add: failing_fetches_def)
  note n = queryFn_failures [of "None :: unit option" "Some ''0xme''" failing_datasets]
  have 1: "queryFn (None :: unit option) (Some ''0xme'') failing_datasets =
             Inl (Error ''Signer not found'')"
    using n [THEN conjunct1] by simp
  note d = queryFn_failures [of "Some ()" "Some ''0xme''" failing_datasets _ _ "[1]"
      "Error ''rpc unreachable''"]
  have 2: "queryFn (Some ()) (Some ''0xme'') failing_datasets = Inl (Error ''rpc unreachable'')"
    using d [THEN conjunct2, THEN conjunct2, THEN conjunct2, THEN conjunct2, THEN conjunct2,
        THEN conjunct1] fd by simp
  note f = queryFn_failures [of "Some ()" "Some ''0xme''" failing_fetches]
  note c2 = conjunct2
  have "\<exists>r. queryFn (Some ()) (Some ''0xme'') failing_fetches = Inr r"
    using f [THEN c2, THEN c2, THEN c2, THEN c2, THEN c2, THEN c2, THEN c2, THEN conjunct1] ff(1-4)
    by simp
  then obtain r where r: "queryFn (Some ()) (Some ''0xme'') failing_fetches = Inr r" ..
  note g = queryFn_failures [of "Some ()" "Some ''0xme''" failing_fetches _ _ _ _ _ r "[1]" "[?d]"]
  have 3: "length r = length [?d] \<and>
      (\<forall>x \<in> set r. \<exists>e d. x = Some e \<and> d \<in> set [?d] \<and> EnhancedDataSetInfo.truncate e = d \<and>
         (data e = None \<longleftrightarrow>
            isl (pdp_getDataSet failing_fetches (case serviceURL e of None \<Rightarrow> [] | Some u \<Rightarrow> u)
                   (pdpVerifierDataSetId d))) \<and>
         (\<forall>p. provider e = Some p \<longrightarrow>
            provider_id p = providerId d \<and>
            (\<exists>pid \<in> set [1]. getProviderInfo failing_fetches pid = Inr p)))"
    using g [THEN c2, THEN c2, THEN c2, THEN c2, THEN c2, THEN c2, THEN c2, THEN c2] r ff(3,4)
    by blast
  then have l: "length r = 1" by simp
  then obtain x where x: "r = [x]"
    by (cases r) auto
  with 3 obtain e where e: "x = Some e" "EnhancedDataSetInfo.truncate e = ?d"
    "data e = None \<longleftrightarrow>
       isl (pdp_getDataSet failing_fetches (case serviceURL e of None \<Rightarrow> [] | Some u \<Rightarrow> u) 7)"
    "\<forall>p. provider e = Some p \<longrightarrow> (\<exists>pid \<in> set [1]. getProviderInfo failing_fetches pid = Inr p)"
    by auto
  from e(3) have "data e = None"
    by (simp add: ff(6))
  moreover from e(4) have "provider e = None"
    by (cases "provider e") (simp_all add: ff(7))
  ultimately have 4: "\<exists>r. queryFn (Some ()) (Some ''0xme'') failing_fetches = Inr r \<and> length r = 1 \<and>
      (\<exists>e. r = [Some e] \<and> data e = None \<and> provider e = None \<and>
         EnhancedDataSetInfo.truncate e = ?d)"
    using r l x e(1,2) by blast
  have 5: "isl (pdp_getDataSet failing_fetches [] 7)"
    by (simp add: ff(6))
  from 1 fd(4) 2 ff(5) 5 4 show ?thesis
    by blast
qed

text \<open>
  The claim as first stated fails: in the run \<open>failing_fetches\<close> both the fetch of the
  provider and the fetch of the dataset's details fail, and the query function resolves
  all the same, with the dataset without provider, service URL and data.
\<close>

theorem queryFn_partial_results_counterexample:
  "getProviderInfo failing_fetches 1 = Inl (Error ''provider unavailable'') \<and>
   pdp_getDataSet failing_fetches [] 7 = Inl (Error ''fetch failed'') \<and>
   queryFn (Some ()) (Some ''0xme'') failing_fetches =
     Inr [Some \<lparr>providerId = 1, payee = ''0xP'', pdpVerifierDataSetId = 7, other_fields = (),
                 provider = None, serviceURL = None, data = None\<rparr>]"
  by (simp add: queryFn_def failing_fetches_def fetch_ids_and_datasets_def
      providerIdToAddressMap_def fetch_provider_def filteredProviders_def
      providerIdToServiceUrlMap_def datasetDetails_def EnhancedDataSetInfo.defs DataSet.defs)

lemma enriched_distinct:
  assumes "distinct (map pdpVerifierDataSetId ds)" and "i < length ds"
  shows "\<exists>e. enriched env ids ds ! i = Some e \<and> EnhancedDataSetInfo.truncate e = ds ! i"
proof -
  define ps where "ps = filteredProviders (map (fetch_provider env (providerIdToAddressMap ds)) ids)"
  define urls where "urls = providerIdToServiceUrlMap ps"
  let ?e = "datasetDetails env urls ps (ds ! i)"
  have "enriched env ids ds ! i =
          find (\<lambda>r. pdpVerifierDataSetId r = pdpVerifierDataSetId (ds ! i))
            (map (datasetDetails env urls ps) ds)"
    using assms(2) by (simp add: enriched_def Let_def ps_def urls_def)
  also have "\<dots> = map_option (datasetDetails env urls ps)
                     (find (\<lambda>d. pdpVerifierDataSetId d = pdpVerifierDataSetId (ds ! i)) ds)"
    by (simp add: find_map_key datasetDetails_id)
  also have "find (\<lambda>d. pdpVerifierDataSetId d = pdpVerifierDataSetId (ds ! i)) ds = Some (ds ! i)"
    using assms by (intro find_distinct_key) simp_all
  finally have "enriched env ids ds ! i = Some ?e" by simp
  then show ?thesis
    using datasetDetails_truncate [of env urls ps "ds ! i"] by blast
qed

lemma truncate_fields:
  fixes e :: "('a, 'p, 'd) DataSet"
  assumes "EnhancedDataSetInfo.truncate e = d"
  shows "e = EnhancedDataSetInfo.extend d (DataSet.fields (provider e) (serviceURL e) (data e))"
    and "providerId e = providerId d" and "payee e = payee d"
    and "pdpVerifierDataSetId e = pdpVerifierDataSetId d" and "other_fields e = other_fields d"
proof -
  show "e = EnhancedDataSetInfo.extend d (DataSet.fields (provider e) (serviceURL e) (data e))"
    using extend_truncate [of e] assms by simp
  have "providerId (EnhancedDataSetInfo.truncate e) = providerId e"
    "payee (EnhancedDataSetInfo.truncate e) = payee e"
    "pdpVerifierDataSetId (EnhancedDataSetInfo.truncate e) = pdpVerifierDataSetId e"
    "other_fields (EnhancedDataSetInfo.truncate e) = other_fields e"
    by (simp_all add: EnhancedDataSetInfo.defs)
  with assms show "providerId e = providerId d" "payee e = payee d"
    "pdpVerifierDataSetId e = pdpVerifierDataSetId d" "other_fields e = other_fields d"
    by simp_all
qed

text \<open>
  Claim C6. The enrichment preserves the base records. When the run succeeds up to the
  fetch of the datasets and the fetched datasets have pairwise distinct
  \<^verbatim>\<open>pdpVerifierDataSetId\<close>, the query function resolves with exactly one entry per
  dataset, in the order of the datasets, and the \<open>i\<close>-th entry is the \<open>i\<close>-th dataset,
  every field unchanged, extended by \<^verbatim>\<open>provider\<close>, \<^verbatim>\<open>serviceURL\<close> and \<^verbatim>\<open>data\<close> only.
\<close>

theorem queryFn_preserves_datasets:
  assumes "signer \<noteq> None" and "address \<noteq> None" and "address \<noteq> Some []"
    and "Synapse_create env = None" and "WarmStorageService_create env = None"
    and "getApprovedProviderIds env = Inr ids"
    and "getClientDataSetsWithDetails env = Inr ds"
    and "distinct (map pdpVerifierDataSetId ds)"
  shows "\<exists>r. queryFn signer address env = Inr r \<and> length r = length ds \<and>
           (\<forall>i < length ds. \<exists>e. r ! i = Some e \<and>
              e = EnhancedDataSetInfo.extend (ds ! i)
                    (DataSet.fields (provider e) (serviceURL e) (data e)) \<and>
              providerId e = providerId (ds ! i) \<and> payee e = payee (ds ! i) \<and>
              pdpVerifierDataSetId e = pdpVerifierDataSetId (ds ! i) \<and>
              other_fields e = other_fields (ds ! i))"
proof -
  have "queryFn signer address env = Inr (enriched env ids ds)"
    using assms(1-7) by (simp add: queryFn_Inr)
  moreover have "\<exists>e. enriched env ids ds ! i = Some e \<and>
              e = EnhancedDataSetInfo.extend (ds ! i)
                    (DataSet.fields (provider e) (serviceURL e) (data e)) \<and>
              providerId e = providerId (ds ! i) \<and> payee e = payee (ds ! i) \<and>
              pdpVerifierDataSetId e = pdpVerifierDataSetId (ds ! i) \<and>
              other_fields e = other_fields (ds ! i)"
    if "i < length ds" for i
  proof -
    from enriched_distinct [OF assms(8) that, of env ids] obtain e where
      e: "enriched env ids ds ! i = Some e" "EnhancedDataSetInfo.truncate e = ds ! i"
      by blast
    from e(1) truncate_fields [OF e(2)] show ?thesis by blast
  qed
  ultimately show ?thesis
    using enriched_length [of env ids ds] by blast
qed

theorem queryFn_preserves_datasets_witness:
  "Synapse_create working_fetches = None \<and> WarmStorageService_create working_fetches = None \<and>
   getApprovedProviderIds working_fetches = Inr [1] \<and>
   getClientDataSetsWithDetails working_fetches =
     Inr [\<lparr>providerId = 1, payee = ''0xP'', pdpVerifierDataSetId = 7, other_fields = ()\<rparr>,
          \<lparr>providerId = 1, payee = ''0xP'', pdpVerifierDataSetId = 9, other_fields = ()\<rparr>] \<and>
   distinct (map pdpVerifierDataSetId
     [\<lparr>providerId = 1, payee = ''0xP'', pdpVerifierDataSetId = 7, other_fields = ()\<rparr>,
      \<lparr>providerId = 1, payee = ''0xP'', pdpVerifierDataSetId = 9, other_fields = ()\<rparr>]) \<and>
   (\<exists>r. queryFn (Some ()) (Some ''0xme'') working_fetches = Inr r \<and>
      length r =
        length [\<lparr>providerId = 1, payee = ''0xP'', pdpVerifierDataSetId = 7, other_fields = ()\<rparr>,
                \<lparr>providerId = 1, payee = ''0xP'', pdpVerifierDataSetId = 9, other_fields = ()\<rparr>] \<and>
      (\<forall>i < length [\<lparr>providerId = 1, payee = ''0xP'', pdpVerifierDataSetId = 7, other_fields = ()\<rparr>,
                     \<lparr>providerId = 1, payee = ''0xP'', pdpVerifierDataSetId = 9, other_fields = ()\<rparr>].
         \<exists>e. r ! i = Some e \<and>
           other_fields e =
             other_fields
               ([\<lparr>providerId = 1, payee = ''0xP'', pdpVerifierDataSetId = 7, other_fields = ()\<rparr>,
                 \<lparr>providerId = 1, payee = ''0xP'', pdpVerifierDataSetId = 9, other_fields = ()\<rparr>] ! i) \<and>
           pdpVerifierDataSetId e =
             pdpVerifierDataSetId
               ([\<lparr>providerId = 1, payee = ''0xP'', pdpVerifierDataSetId = 7, other_fields = ()\<rparr>,
                 \<lparr>providerId = 1, payee = ''0xP'', pdpVerifierDataSetId = 9, other_fields = ()\<rparr>] ! i)))"
proof -
  let ?d7 = "\<lparr>providerId = 1, payee = ''0xP'', pdpVerifierDataSetId = 7, other_fields = ()\<rparr>"
  let ?d9 = "\<lparr>providerId = 1, payee = ''0xP'', pdpVerifierDataSetId = 9, other_fields = ()\<rparr>"
  have s: "Some () \<noteq> None" and a: "Some ''0xme'' \<noteq> None" "Some ''0xme'' \<noteq> Some []"
    by simp_all
  have c: "Synapse_create working_fetches = None"
    and w: "WarmStorageService_create working_fetches = None"
    and i: "getApprovedProviderIds working_fetches = Inr [1]"
    and d: "getClientDataSetsWithDetails working_fetches = Inr [?d7, ?d9]"
    by (simp_all add: working_fetches_def)
  have u: "distinct (map pdpVerifierDataSetId [?d7, ?d9])"
    by simp
  from queryFn_preserves_datasets [OF s a c w i d u] c w i d u show ?thesis
    by blast
qed


section \<open>Cancelling an upload\<close>

text \<open>
  Claim C7. Cancellation aborts the \<^verbatim>\<open>AbortController\<close> and sets the progress state to
  failed with the error \<^verbatim>\<open>Upload cancelled by user\<close>; so far the code does what the claim
  says. But \<^verbatim>\<open>cancelUpload\<close> also sets \<^verbatim>\<open>cancelTokenRef.current\<close> to null, and the check
  in the loop reads the signal through that ref: after a cancellation it reads
  \<^verbatim>\<open>undefined\<close> and does not throw. An upload cancelled during the first timer of the
  loop runs on and reaches the completed state.
\<close>

theorem cancelled_upload_completes:
  "progressState
     (upload_run no_wildcards [StartUpload small_file default_config, Settle None 1000]
        upload_hook_initial) = Uploading 30 ''a.txt'' 12 \<and>
   canCancel (Uploading 30 ''a.txt'' 12) \<and>
   controllers
     (upload_run no_wildcards [StartUpload small_file default_config, Settle None 1000, CancelUpload]
        upload_hook_initial) = [True] \<and>
   progressState
     (upload_run no_wildcards [StartUpload small_file default_config, Settle None 1000, CancelUpload]
        upload_hook_initial) = Failed 30 (Text ''Upload cancelled by user'') (Some ''a.txt'') \<and>
   progressState
     (upload_run no_wildcards
        [StartUpload small_file default_config, Settle None 1000, CancelUpload,
         Settle None 1500, Settle None 2000, Settle None 2500, Settle None 3000, Settle None 3500,
         Settle None 4500]
        upload_hook_initial) =
     Completed \<lparr>result_cid = ''QmExamplePieceCID123456789'',
                 result_transactionHash = ''0x'' @ replicate 64 CHR ''0'',
                 fileSize = 12, result_fileName = ''a.txt'', uploadTime = 4500\<rparr>"
  by (simp add: upload_run_def upload_hook_initial_def small_file_def default_config_def
      mutation_start_def mutation_resume_def validateFileInternal_def loop_head_def
      signal_aborted_def cancelUpload_def mutation_throws_def Let_def)


section \<open>Formatting amounts\<close>

declare digits.simps [simp del]

lemma of_char_digit_char:
  assumes "d < 10"
  shows "of_char (digit_char d) = 48 + d"
proof -
  from assms have "d = 0 \<or> d = 1 \<or> d = 2 \<or> d = 3 \<or> d = 4 \<or> d = 5 \<or> d = 6 \<or> d = 7
      \<or> d = 8 \<or> d = 9"
    by arith
  then show ?thesis
    by (auto simp: digit_char_def)
qed

lemma digit_value_digit_char: "d < 10 \<Longrightarrow> digit_value (digit_char d) = d"
  by (simp add: digit_value_def of_char_digit_char)

lemma digit_char_neq:
  assumes "d < 10"
  shows "digit_char d \<noteq> CHR ''.''" and "digit_char d \<noteq> CHR ''-''"
proof -
  have "(of_char (digit_char d) :: nat) \<noteq> of_char CHR ''.''"
    "(of_char (digit_char d) :: nat) \<noteq> of_char CHR ''-''"
    using assms by (simp_all add: of_char_digit_char)
  then show "digit_char d \<noteq> CHR ''.''" and "digit_char d \<noteq> CHR ''-''"
    by auto
qed

lemma number_of_digits_append:
  "number_of_digits (s @ [c]) = 10 * number_of_digits s + digit_value c"
  by (simp add: number_of_digits_def)

lemma number_of_digits_digits: "number_of_digits (digits n) = n"
proof (induction n rule: digits.induct)
  case (1 n)
  show ?case
  proof (cases "n < 10")
    case True
    then show ?thesis
      by (subst digits.simps) (simp add: number_of_digits_def digit_value_digit_char)
  next
    case False
    with 1 have "number_of_digits (digits (n div 10)) = n div 10" by simp
    with False show ?thesis
      by (subst digits.simps) (simp add: number_of_digits_append digit_value_digit_char)
  qed
qed

lemma digits_no_point: "CHR ''.'' \<notin> set (digits n)"
proof (induction n rule: digits.induct)
  case (1 n)
  show ?case
  proof (cases "n < 10")
    case True
    then show ?thesis
      using digit_char_neq(1) [of n] by (subst digits.simps) simp
  next
    case False
    with 1 have "CHR ''.'' \<notin> set (digits (n div 10))" by simp
    with False show ?thesis
      using digit_char_neq(1) [of "n mod 10"] by (subst digits.simps) simp
  qed
qed

lemma length_digits: "0 < k \<Longrightarrow> n < 10 ^ k \<Longrightarrow> length (digits n) \<le> k"
proof (induction n arbitrary: k rule: digits.induct)
  case (1 n)
  show ?case
  proof (cases "n < 10")
    case True
    with 1(2) show ?thesis by (subst digits.simps) simp
  next
    case False
    with 1(3) have "1 < k"
      by (metis One_nat_def Suc_lessI 1(2) power_one_right)
    then obtain j where k: "k = Suc j" "0 < j"
      by (cases k) auto
    with 1(3) have "n div 10 < 10 ^ j"
      by (simp add: less_mult_imp_div_less mult.commute)
    with 1(1) False k have "length (digits (n div 10)) \<le> j" by simp
    with False k show ?thesis by (subst digits.simps) simp
  qed
qed

lemma number_of_digits_zeros_front:
  "number_of_digits (replicate k CHR ''0'' @ s) = number_of_digits s"
proof -
  have "foldl (\<lambda>acc c. 10 * acc + digit_value c) 0 (replicate k CHR ''0'') = 0"
    by (induction k) (simp_all add: digit_value_def)
  then show ?thesis
    by (simp add: number_of_digits_def)
qed

lemma number_of_digits_zeros: "number_of_digits (replicate k CHR ''0'') = 0"
  using number_of_digits_zeros_front [of k "[]"] by (simp add: number_of_digits_def)

lemma strip_trailing_zeros_pad:
  "strip_trailing_zeros s @ replicate (length s - length (strip_trailing_zeros s)) CHR ''0'' = s"
proof -
  let ?P = "\<lambda>c. c = CHR ''0''"
  let ?t = "takeWhile ?P (rev s)" and ?d = "dropWhile ?P (rev s)"
  have "rev s = ?t @ ?d" by simp
  then have "rev (rev s) = rev (?t @ ?d)" by (rule arg_cong)
  then have s: "s = rev ?d @ rev ?t" by (simp only: rev_rev_ident rev_append)
  have "length s = length (rev ?d) + length (rev ?t)"
    by (subst s) (simp only: length_append)
  then have l: "length ?t = length s - length (rev ?d)" by simp
  have "rev ?t = rev (replicate (length ?t) CHR ''0'')"
    using takeWhile_same [of "CHR ''0''" "rev s"] by (rule arg_cong)
  then have "rev ?t = replicate (length s - length (rev ?d)) CHR ''0''"
    by (simp only: rev_replicate l)
  with s show ?thesis
    by (simp only: strip_trailing_zeros_def)
qed

lemma strip_trailing_zeros_last:
  assumes "strip_trailing_zeros s \<noteq> []"
  shows "last (strip_trailing_zeros s) \<noteq> CHR ''0''"
proof -
  let ?d = "dropWhile (\<lambda>c. c = CHR ''0'') (rev s)"
  from assms have d: "?d \<noteq> []"
    by (simp add: strip_trailing_zeros_def)
  then have "hd ?d \<noteq> CHR ''0''"
    by (rule dropWhile_hd)
  moreover have "last (rev ?d) = hd ?d"
    using d by (simp add: last_rev)
  ultimately have "last (rev ?d) \<noteq> CHR ''0''"
    by simp
  then show ?thesis
    unfolding strip_trailing_zeros_def .
qed

lemma parse_currency_whole:
  assumes "CHR ''.'' \<notin> set w"
  shows "parse_currency w = int (number_of_digits w) * 10 ^ 18"
proof -
  from assms have a: "\<forall>c \<in> set w. c \<noteq> CHR ''.''" by auto
  have tw: "takeWhile (\<lambda>c. c \<noteq> CHR ''.'') w = w"
    using a by (rule takeWhile_all)
  have dw: "dropWhile (\<lambda>c. c \<noteq> CHR ''.'') w = []"
    using a by (rule dropWhile_all)
  show ?thesis
    unfolding parse_currency_def Let_def tw dw
    by (simp add: number_of_digits_zeros)
qed

lemma parse_currency_point:
  assumes "CHR ''.'' \<notin> set w"
  shows "parse_currency (w @ ''.'' @ f) =
           int (number_of_digits w) * 10 ^ 18
           + int (number_of_digits (f @ replicate (18 - length f) CHR ''0''))"
proof -
  from assms have a: "\<forall>c \<in> set w. c \<noteq> CHR ''.''" by auto
  have tw: "takeWhile (\<lambda>c. c \<noteq> CHR ''.'') (w @ ''.'' @ f) = w"
    using takeWhile_until [OF a, of "CHR ''.''" f] by simp
  have dw: "dropWhile (\<lambda>c. c \<noteq> CHR ''.'') (w @ ''.'' @ f) = CHR ''.'' # f"
    using dropWhile_until [OF a, of "CHR ''.''" f] by simp
  show ?thesis
    unfolding parse_currency_def Let_def tw dw
    by simp
qed

lemma bigint_div_nonneg: "0 \<le> a \<Longrightarrow> 0 < b \<Longrightarrow> bigint_div a b = a div b"
  by (cases "a = 0") (simp_all add: bigint_div_def)

lemma bigint_rem_nonneg: "0 \<le> a \<Longrightarrow> 0 < b \<Longrightarrow> bigint_rem a b = a mod b"
  by (cases "a = 0") (simp_all add: bigint_rem_def)

lemma toString_nonneg: "0 \<le> i \<Longrightarrow> toString i = digits (nat i)"
  by (simp add: toString_def)

text \<open>The fractional digits of a remainder \<open>r\<close> below \<open>10 ^ 18\<close>.\<close>

lemma fractional_digits:
  assumes "r < 10 ^ 18"
  shows "length (padStart 18 CHR ''0'' (digits r)) = 18"
    and "number_of_digits (padStart 18 CHR ''0'' (digits r)) = r"
proof -
  have "length (digits r) \<le> 18"
    using assms by (intro length_digits) simp_all
  then show "length (padStart 18 CHR ''0'' (digits r)) = 18"
    by (simp add: padStart_def)
  show "number_of_digits (padStart 18 CHR ''0'' (digits r)) = r"
    by (simp only: padStart_def number_of_digits_zeros_front number_of_digits_digits)
qed

lemma formatCurrency_18:
  assumes "0 \<le> amount"
  shows "formatCurrency amount 18 =
           Some (if amount mod 10 ^ 18 = 0 then digits (nat (amount div 10 ^ 18))
                 else if strip_trailing_zeros (padStart 18 CHR ''0'' (digits (nat (amount mod 10 ^ 18)))) \<noteq> []
                 then digits (nat (amount div 10 ^ 18)) @ ''.'' @
                      strip_trailing_zeros (padStart 18 CHR ''0'' (digits (nat (amount mod 10 ^ 18))))
                 else digits (nat (amount div 10 ^ 18)))"
proof -
  have d: "divisor_of 18 = Some (10 ^ 18)"
    by (simp add: divisor_of_def)
  have w: "bigint_div amount (10 ^ 18) = amount div 10 ^ 18"
    and r: "bigint_rem amount (10 ^ 18) = amount mod 10 ^ 18"
    using assms by (simp_all add: bigint_div_nonneg bigint_rem_nonneg)
  have w0: "0 \<le> amount div 10 ^ 18" and r0: "0 \<le> amount mod 10 ^ 18"
    using assms by (simp_all add: pos_imp_zdiv_nonneg_iff)
  show ?thesis
    unfolding formatCurrency_def d option.case Let_def w r
      toString_nonneg [OF w0] toString_nonneg [OF r0]
    by simp
qed

text \<open>
  Claim C10. \<^verbatim>\<open>formatCurrency\<close> round-trips. For every non-negative amount and the
  default 18 decimals, the function returns a string; reading the string back (the whole
  part times \<open>10 ^ 18\<close>, plus the fractional digits padded with zeros on the right to 18
  places) gives the amount; and a string with a decimal point does not end in a zero.
\<close>

theorem formatCurrency_round_trip:
  assumes "0 \<le> amount"
  shows "\<exists>s. formatCurrency amount 18 = Some s \<and> parse_currency s = amount \<and>
           (CHR ''.'' \<in> set s \<longrightarrow> last s \<noteq> CHR ''0'')"
proof -
  let ?w = "nat (amount div 10 ^ 18)" and ?r = "nat (amount mod 10 ^ 18)"
  let ?f = "padStart 18 CHR ''0'' (digits ?r)"
  let ?t = "strip_trailing_zeros ?f"
  have w: "int ?w = amount div 10 ^ 18" and r: "int ?r = amount mod 10 ^ 18"
    using assms by (simp_all add: pos_imp_zdiv_nonneg_iff)
  have split: "amount = int ?w * 10 ^ 18 + int ?r"
    unfolding w r by simp
  have "amount mod 10 ^ 18 < 10 ^ 18" by simp
  then have "?r < 10 ^ 18"
    by (simp add: nat_less_iff)
  then have f: "length ?f = 18" "number_of_digits ?f = ?r"
    by (rule fractional_digits)+
  have pad: "?t @ replicate (18 - length ?t) CHR ''0'' = ?f"
    using strip_trailing_zeros_pad [of ?f] by (simp only: f(1))
  show ?thesis
  proof (cases "amount mod 10 ^ 18 = 0")
    case True
    then have "formatCurrency amount 18 = Some (digits ?w)"
      using assms by (simp add: formatCurrency_18)
    moreover have "parse_currency (digits ?w) = amount"
      using True split by (simp add: parse_currency_whole digits_no_point number_of_digits_digits)
    moreover have "CHR ''.'' \<notin> set (digits ?w)"
      by (rule digits_no_point)
    ultimately show ?thesis by blast
  next
    case False
    have t: "?t \<noteq> []"
    proof
      assume "?t = []"
      with pad have "?f = replicate 18 CHR ''0''" by simp
      then have "number_of_digits ?f = 0"
        by (simp only: number_of_digits_zeros)
      with f(2) r False show False by simp
    qed
    let ?s = "digits ?w @ ''.'' @ ?t"
    have "formatCurrency amount 18 = Some ?s"
      using assms False t by (simp add: formatCurrency_18)
    moreover have "parse_currency ?s = amount"
      unfolding parse_currency_point [OF digits_no_point] pad f(2) number_of_digits_digits
      using split by simp
    moreover have "last ?s \<noteq> CHR ''0''"
      using t strip_trailing_zeros_last [OF t] by simp
    ultimately show ?thesis by blast
  qed
qed

theorem formatCurrency_round_trip_witness:
  "(0::int) \<le> 1500000000000000000 \<and>
   formatCurrency 1500000000000000000 18 = Some ''1.5'' \<and>
   parse_currency ''1.5'' = 1500000000000000000 \<and>
   CHR ''.'' \<in> set ''1.5'' \<and> last ''1.5'' \<noteq> CHR ''0''"
proof -
  have h: "(0::int) \<le> 1500000000000000000" by simp
  have f: "formatCurrency 1500000000000000000 18 = Some ''1.5''"
    by (simp add: formatCurrency_def divisor_of_def bigint_div_def bigint_rem_def toString_def
        padStart_def strip_trailing_zeros_def digit_char_def digits.simps)
  from formatCurrency_round_trip [OF h] obtain s where
    s: "formatCurrency 1500000000000000000 18 = Some s" "parse_currency s = 1500000000000000000"
      "CHR ''.'' \<in> set s \<longrightarrow> last s \<noteq> CHR ''0''"
    by blast
  from s(1) f have "s = ''1.5''" by simp
  with s(2,3) have "parse_currency ''1.5'' = 1500000000000000000"
    and "CHR ''.'' \<in> set ''1.5'' \<longrightarrow> last ''1.5'' \<noteq> CHR ''0''"
    by simp_all
  moreover have "CHR ''.'' \<in> set ''1.5''" by simp
  ultimately show ?thesis using h f by blast
qed


end
